theory Spec2Isabelle
  imports Complex_Main
begin

text \<open>
  A model of \<open>main.py\<close>, the process report: the three functions that turn the reply of
  a language-model backend into a mapping from process names to descriptions and threat
  scores, the rendering of the report, its sort script, and the sequence of \<open>main\<close>.
  Exceptions are values (\<open>Inl\<close>), the local variables of a loop are a record passed from
  line to line, and the built-ins \<open>float\<close> (on strings) and \<open>json.loads\<close> are parameters,
  written \<open>pf\<close> and \<open>loads\<close>.
\<close>

section \<open>Python strings\<close>

text \<open>
  A Python \<open>str\<close> is modelled as a \<open>string\<close>: one \<open>char\<close> per code point, for text whose
  code points are below 256. \<open>str.strip()\<close> removes the characters for which
  \<open>str.isspace()\<close> holds; below 256 these are 9 to 13, 28 to 32, 133 and 160.
\<close>

definition is_space :: "char \<Rightarrow> bool" where
  "is_space c =
     (let n = (of_char c :: nat)
      in (9 \<le> n \<and> n \<le> 13) \<or> (28 \<le> n \<and> n \<le> 32) \<or> n = 133 \<or> n = 160)"

definition strip :: "string \<Rightarrow> string" where
  "strip s = rev (dropWhile is_space (rev (dropWhile is_space s)))"

fun startswith :: "string \<Rightarrow> string \<Rightarrow> bool" where
  "startswith s [] = True"
| "startswith [] (p # ps) = False"
| "startswith (c # cs) (p # ps) = (c = p \<and> startswith cs ps)"

text \<open>\<open>s.split(sep)\<close> for a one-character separator: never the empty list.\<close>

fun split_on :: "char \<Rightarrow> string \<Rightarrow> string list" where
  "split_on sep [] = [[]]"
| "split_on sep (c # cs) =
     (if c = sep then [] # split_on sep cs
      else (case split_on sep cs of
              [] \<Rightarrow> [[c]]
            | p # ps \<Rightarrow> (c # p) # ps))"

definition split_lines :: "string \<Rightarrow> string list" where
  "split_lines content = split_on CHR 0x0A content"

datatype exn =
    KeyError | IndexError | ValueError | TypeError | AttributeError
  | OverflowError | UnboundLocalError

text \<open>\<open>line.split(":")[1]\<close>: the text between the first and the second colon.\<close>

definition split_colon_1 :: "string \<Rightarrow> exn + string" where
  "split_colon_1 line =
     (case split_on CHR '':'' line of
        a # b # rest \<Rightarrow> Inr b
      | _ \<Rightarrow> Inl IndexError)"

text \<open>\<open>line.split(":", 1)\<close>: the text before the first colon, and all the text after it.\<close>

definition before_colon :: "string \<Rightarrow> string" where
  "before_colon line = takeWhile (\<lambda>c. c \<noteq> CHR '':'') line"

definition after_colon :: "string \<Rightarrow> exn + string" where
  "after_colon line =
     (case dropWhile (\<lambda>c. c \<noteq> CHR '':'') line of
        [] \<Rightarrow> Inl IndexError
      | c # rest \<Rightarrow> Inr rest)"

text \<open>\<open>' '.join(parts)\<close>\<close>

fun join_space :: "string list \<Rightarrow> string" where
  "join_space [] = []"
| "join_space [p] = p"
| "join_space (p # q # ps) = p @ CHR '' '' # join_space (q # ps)"

text \<open>\<open>'\n'.join(parts)\<close>\<close>

fun join_lines :: "string list \<Rightarrow> string" where
  "join_lines [] = []"
| "join_lines [p] = p"
| "join_lines (p # q # ps) = p @ CHR 0x0A # join_lines (q # ps)"

section \<open>Analysis entries\<close>

text \<open>
  A Python float is the number it denotes, or an infinity, or not-a-number. The
  comparisons of the program are against the constants 4 and 7 only.
\<close>

datatype pyfloat = Finite rat | PosInf | NegInf | NaN

fun float_less :: "pyfloat \<Rightarrow> rat \<Rightarrow> bool" where
  "float_less (Finite x) c = (x < c)"
| "float_less NegInf c = True"
| "float_less PosInf c = False"
| "float_less NaN c = False"

text \<open>
  The value stored under \<open>'threat_score'\<close> by the free-text parsers: a float, or the
  string \<open>'N/A'\<close>.
\<close>

datatype score = Num pyfloat | NA

text \<open>
  The dict stored per process name. It starts as \<open>{}\<close>; the only keys ever set are
  \<open>'description'\<close> and \<open>'threat_score'\<close>, so a missing key is \<open>None\<close>.
\<close>

record entry =
  description :: "string option"
  threat_score :: "score option"

definition empty_entry :: entry where
  "empty_entry = \<lparr>description = None, threat_score = None\<rparr>"

type_synonym analysis = "string \<rightharpoonup> entry"

section \<open>The free-text parsing loop of \<open>analyze_processes_anthropic\<close>\<close>

text \<open>
  The three local variables of the loop: \<open>analysis\<close>, \<open>current_process\<close> and the list
  \<open>description\<close>, here the field \<open>parts\<close>. \<open>float\<close> of a string is Python's built-in; the
  loop takes it as the parameter \<open>pf\<close>, \<open>None\<close> standing for \<open>ValueError\<close>.
\<close>

record pstate =
  analysis :: analysis
  current_process :: "string option"
  parts :: "string list"

definition init_pstate :: pstate where
  "init_pstate = \<lparr>analysis = Map.empty, current_process = None, parts = []\<rparr>"

text \<open>\<open>if current_process:\<close> holds for a string that is not empty.\<close>

fun truthy :: "string option \<Rightarrow> bool" where
  "truthy None = False"
| "truthy (Some s) = (s \<noteq> [])"

text \<open>\<open>analysis[current_process]['description'] = d\<close>\<close>

definition set_description :: "analysis \<Rightarrow> string option \<Rightarrow> string \<Rightarrow> exn + analysis" where
  "set_description a cp d =
     (case cp of
        None \<Rightarrow> Inl KeyError
      | Some k \<Rightarrow>
          (case a k of
             None \<Rightarrow> Inl KeyError
           | Some e \<Rightarrow> Inr (a(k \<mapsto> e\<lparr>description := Some d\<rparr>))))"

text \<open>\<open>analysis[current_process]['threat_score'] = v\<close>\<close>

definition set_threat_score :: "analysis \<Rightarrow> string option \<Rightarrow> score \<Rightarrow> exn + analysis" where
  "set_threat_score a cp v =
     (case cp of
        None \<Rightarrow> Inl KeyError
      | Some k \<Rightarrow>
          (case a k of
             None \<Rightarrow> Inl KeyError
           | Some e \<Rightarrow> Inr (a(k \<mapsto> e\<lparr>threat_score := Some v\<rparr>))))"

text \<open>The \<open>try: float(...) except ValueError: 'N/A'\<close> of the threat-score branches.\<close>

definition score_of :: "(string \<Rightarrow> pyfloat option) \<Rightarrow> string \<Rightarrow> score" where
  "score_of pf txt = (case pf txt of Some x \<Rightarrow> Num x | None \<Rightarrow> NA)"

text \<open>The flush before a new process name and after the loop.\<close>

definition flush :: "pstate \<Rightarrow> exn + analysis" where
  "flush st =
     (if truthy (current_process st)
      then set_description (analysis st) (current_process st) (join_space (parts st))
      else Inr (analysis st))"

text \<open>One iteration of the loop of lines 116 to 131.\<close>

definition anthropic_line :: "(string \<Rightarrow> pyfloat option) \<Rightarrow> pstate \<Rightarrow> string \<Rightarrow> exn + pstate" where
  "anthropic_line pf st line =
     (if startswith line ''Process Name:'' then
        (case flush st of
           Inl e \<Rightarrow> Inl e
         | Inr a \<Rightarrow>
             (case split_colon_1 line of
                Inl e \<Rightarrow> Inl e
              | Inr p \<Rightarrow>
                  Inr \<lparr>analysis = a(strip p \<mapsto> empty_entry),
                       current_process = Some (strip p),
                       parts = []\<rparr>))
      else if startswith line ''Description:'' then
        (case after_colon line of
           Inl e \<Rightarrow> Inl e
         | Inr v \<Rightarrow> Inr (st\<lparr>parts := parts st @ [strip v]\<rparr>))
      else if startswith line ''Threat Score:'' then
        (case split_colon_1 line of
           Inl e \<Rightarrow> Inl e
         | Inr v \<Rightarrow>
             (case set_threat_score (analysis st) (current_process st) (score_of pf (strip v)) of
                Inl e \<Rightarrow> Inl e
              | Inr a \<Rightarrow> Inr (st\<lparr>analysis := a\<rparr>)))
      else if strip line \<noteq> [] \<and> truthy (current_process st) then
        Inr (st\<lparr>parts := parts st @ [strip line]\<rparr>)
      else Inr st)"

fun anthropic_loop :: "(string \<Rightarrow> pyfloat option) \<Rightarrow> pstate \<Rightarrow> string list \<Rightarrow> exn + pstate" where
  "anthropic_loop pf st [] = Inr st"
| "anthropic_loop pf st (line # rest) =
     (case anthropic_line pf st line of
        Inl e \<Rightarrow> Inl e
      | Inr st' \<Rightarrow> anthropic_loop pf st' rest)"

text \<open>Lines 112 to 135: the loop over \<open>content.split('\n')\<close>, then the last flush.\<close>

definition anthropic_parse :: "(string \<Rightarrow> pyfloat option) \<Rightarrow> string \<Rightarrow> exn + analysis" where
  "anthropic_parse pf content =
     (case anthropic_loop pf init_pstate (split_lines content) of
        Inl e \<Rightarrow> Inl e
      | Inr st \<Rightarrow> flush st)"

section \<open>The free-text parsing loop of \<open>analyze_processes_openai\<close>\<close>

text \<open>One iteration of the loop of lines 256 to 271.\<close>

definition openai_line :: "(string \<Rightarrow> pyfloat option) \<Rightarrow> pstate \<Rightarrow> string \<Rightarrow> exn + pstate" where
  "openai_line pf st line =
     (if startswith line ''Process Name:'' then
        (case flush st of
           Inl e \<Rightarrow> Inl e
         | Inr a \<Rightarrow>
             (case split_colon_1 line of
                Inl e \<Rightarrow> Inl e
              | Inr p \<Rightarrow>
                  Inr \<lparr>analysis = a(strip p \<mapsto> empty_entry),
                       current_process = Some (strip p),
                       parts = []\<rparr>))
      else if startswith line ''Description:'' then
        (case after_colon line of
           Inl e \<Rightarrow> Inl e
         | Inr v \<Rightarrow> Inr (st\<lparr>parts := parts st @ [strip v]\<rparr>))
      else if startswith line ''Threat Score:'' then
        (case split_colon_1 line of
           Inl e \<Rightarrow> Inl e
         | Inr v \<Rightarrow>
             (case set_threat_score (analysis st) (current_process st) (score_of pf (strip v)) of
                Inl e \<Rightarrow> Inl e
              | Inr a \<Rightarrow> Inr (st\<lparr>analysis := a\<rparr>)))
      else if strip line \<noteq> [] \<and> truthy (current_process st) then
        Inr (st\<lparr>parts := parts st @ [strip line]\<rparr>)
      else Inr st)"

fun openai_loop :: "(string \<Rightarrow> pyfloat option) \<Rightarrow> pstate \<Rightarrow> string list \<Rightarrow> exn + pstate" where
  "openai_loop pf st [] = Inr st"
| "openai_loop pf st (line # rest) =
     (case openai_line pf st line of
        Inl e \<Rightarrow> Inl e
      | Inr st' \<Rightarrow> openai_loop pf st' rest)"

text \<open>Lines 252 to 275.\<close>

definition openai_parse :: "(string \<Rightarrow> pyfloat option) \<Rightarrow> string \<Rightarrow> exn + analysis" where
  "openai_parse pf content =
     (case openai_loop pf init_pstate (split_lines content) of
        Inl e \<Rightarrow> Inl e
      | Inr st \<Rightarrow> flush st)"

section \<open>The manual extraction of \<open>analyze_processes_ollama\<close>\<close>

text \<open>
  Lines 183 to 199, run when \<open>json.loads\<close> raises \<open>JSONDecodeError\<close>. The state is
  \<open>analysis\<close> and \<open>current_process\<close>; there is no list of description parts.
\<close>

definition ollama_line ::
  "(string \<Rightarrow> pyfloat option) \<Rightarrow> analysis \<times> string option \<Rightarrow> string \<Rightarrow> exn + analysis \<times> string option"
where
  "ollama_line pf st line =
     (case st of (a, cp) \<Rightarrow>
        if CHR '':'' \<in> set line then
          (case after_colon line of
             Inl e \<Rightarrow> Inl e
           | Inr rest \<Rightarrow>
               (let key = strip (before_colon line); value = strip rest
                in if key = ''Process Name'' then
                     Inr (a(value \<mapsto> empty_entry), Some value)
                   else if key = ''Description'' \<and> truthy cp then
                     (case set_description a cp value of
                        Inl e \<Rightarrow> Inl e
                      | Inr a' \<Rightarrow> Inr (a', cp))
                   else if key = ''Threat Score'' \<and> truthy cp then
                     (case set_threat_score a cp (score_of pf value) of
                        Inl e \<Rightarrow> Inl e
                      | Inr a' \<Rightarrow> Inr (a', cp))
                   else Inr (a, cp)))
        else Inr (a, cp))"

fun ollama_loop ::
  "(string \<Rightarrow> pyfloat option) \<Rightarrow> analysis \<times> string option \<Rightarrow> string list \<Rightarrow> exn + analysis \<times> string option"
where
  "ollama_loop pf st [] = Inr st"
| "ollama_loop pf st (line # rest) =
     (case ollama_line pf st line of
        Inl e \<Rightarrow> Inl e
      | Inr st' \<Rightarrow> ollama_loop pf st' rest)"

definition ollama_fallback :: "(string \<Rightarrow> pyfloat option) \<Rightarrow> string \<Rightarrow> exn + analysis" where
  "ollama_fallback pf analysis_text =
     (case ollama_loop pf (Map.empty, None) (split_lines analysis_text) of
        Inl e \<Rightarrow> Inl e
      | Inr (a, cp) \<Rightarrow> Inr a)"

section \<open>Python values\<close>

text \<open>
  What \<open>json.loads\<close> can return, and so what \<open>generate_report\<close> can be handed. A dict
  with string keys is a map: the program never depends on the order of the keys.
\<close>

datatype pyval =
    PNone
  | PBool bool
  | PInt int
  | PFloat pyfloat
  | PStr string
  | PList "pyval list"
  | PDict "string \<Rightarrow> pyval option"

fun py_of_score :: "score \<Rightarrow> pyval" where
  "py_of_score (Num x) = PFloat x"
| "py_of_score NA = PStr ''N/A''"

definition py_of_entry :: "entry \<Rightarrow> pyval" where
  "py_of_entry e =
     PDict (\<lambda>k. if k = ''description'' then map_option PStr (description e)
                else if k = ''threat_score'' then map_option py_of_score (threat_score e)
                else None)"

text \<open>The dict built by a free-text parser, as the Python value it is.\<close>

definition py_of_analysis :: "analysis \<Rightarrow> pyval" where
  "py_of_analysis a = PDict (\<lambda>k. map_option py_of_entry (a k))"

text \<open>\<open>len(v)\<close> is defined for strings, lists and dicts, and raises \<open>TypeError\<close> otherwise.\<close>

fun has_len :: "pyval \<Rightarrow> bool" where
  "has_len (PStr s) = True"
| "has_len (PList xs) = True"
| "has_len (PDict m) = True"
| "has_len v = False"

text \<open>\<open>v.get(key, default)\<close>: only a dict has the method.\<close>

definition dict_get :: "pyval \<Rightarrow> string \<Rightarrow> pyval \<Rightarrow> exn + pyval" where
  "dict_get v key dflt =
     (case v of
        PDict m \<Rightarrow> Inr (case m key of Some x \<Rightarrow> x | None \<Rightarrow> dflt)
      | _ \<Rightarrow> Inl AttributeError)"

text \<open>\<open>v == s\<close> for a string \<open>s\<close>: only a string equals a string.\<close>

definition eq_str :: "pyval \<Rightarrow> string \<Rightarrow> bool" where
  "eq_str v s = (case v of PStr t \<Rightarrow> t = s | _ \<Rightarrow> False)"

text \<open>
  \<open>float(v)\<close>: a float is itself, an int or a bool is converted (an int that rounds beyond
  the largest double raises \<open>OverflowError\<close>), a string is parsed, anything else raises
  \<open>TypeError\<close>.
\<close>

definition py_float :: "(string \<Rightarrow> pyfloat option) \<Rightarrow> pyval \<Rightarrow> exn + pyfloat" where
  "py_float pf v =
     (case v of
        PFloat x \<Rightarrow> Inr x
      | PInt i \<Rightarrow>
          (if \<bar>i\<bar> < 2 ^ 1024 - 2 ^ 970 then Inr (Finite (of_int i)) else Inl OverflowError)
      | PBool b \<Rightarrow> Inr (Finite (if b then 1 else 0))
      | PStr s \<Rightarrow> (case pf s of Some x \<Rightarrow> Inr x | None \<Rightarrow> Inl ValueError)
      | _ \<Rightarrow> Inl TypeError)"

section \<open>The three analysis functions\<close>

text \<open>
  What the call to the backend gives. The request either raises, or returns a message
  whose \<open>content\<close> is a list of blocks; a block may lack the attribute \<open>text\<close>.
\<close>

datatype content_block = TextBlock string | OtherBlock

datatype anthropic_reply = AnthropicRaises | AnthropicMessage "content_block list"

fun block_text :: "content_block \<Rightarrow> string option" where
  "block_text (TextBlock t) = Some t"
| "block_text OtherBlock = None"

text \<open>
  Lines 94 to 143. The handler of line 139 reads \<open>response.content\<close> at line 142; when
  \<open>client.messages.create\<close> has raised, \<open>response\<close> was never bound, and the handler itself
  raises \<open>UnboundLocalError\<close>. When the blocks do not all have a text, \<open>content\<close> stays a
  list and \<open>content.split\<close> raises \<open>AttributeError\<close>.
\<close>

definition analyze_processes_anthropic ::
  "(string \<Rightarrow> pyfloat option) \<Rightarrow> anthropic_reply \<Rightarrow> exn + analysis"
where
  "analyze_processes_anthropic pf reply =
     (case reply of
        AnthropicRaises \<Rightarrow> Inl UnboundLocalError
      | AnthropicMessage content \<Rightarrow>
          (case (if list_all (\<lambda>item. block_text item \<noteq> None) content
                 then anthropic_parse pf (join_lines (map (\<lambda>item. the (block_text item)) content))
                 else Inl AttributeError) of
             Inl e \<Rightarrow> Inr Map.empty
           | Inr a \<Rightarrow> Inr a))"

text \<open>
  Lines 241 to 282. The message content is a string or \<open>None\<close>; the handler of line 279
  uses nothing but the exception.
\<close>

datatype openai_reply = OpenAIRaises | OpenAIMessage "string option"

definition analyze_processes_openai ::
  "(string \<Rightarrow> pyfloat option) \<Rightarrow> openai_reply \<Rightarrow> exn + analysis"
where
  "analyze_processes_openai pf reply =
     (case reply of
        OpenAIRaises \<Rightarrow> Inr Map.empty
      | OpenAIMessage None \<Rightarrow> Inr Map.empty
      | OpenAIMessage (Some content) \<Rightarrow>
          (case openai_parse pf content of
             Inl e \<Rightarrow> Inr Map.empty
           | Inr a \<Rightarrow> Inr a))"

text \<open>
  Lines 161 to 218. The request raises, or its JSON result has no key \<open>'response'\<close>, or
  it has one, a string. \<open>json.loads\<close> is the parameter \<open>loads\<close>, \<open>None\<close> standing for
  \<open>JSONDecodeError\<close>. Line 201 takes \<open>len(analysis)\<close> inside the \<open>try\<close> of line 176.
\<close>

datatype ollama_reply = OllamaRaises | OllamaNoResponse | OllamaResponse string

definition analyze_processes_ollama ::
  "(string \<Rightarrow> pyfloat option) \<Rightarrow> (string \<Rightarrow> pyval option) \<Rightarrow> ollama_reply \<Rightarrow> exn + pyval"
where
  "analyze_processes_ollama pf loads reply =
     (case reply of
        OllamaRaises \<Rightarrow> Inr (PDict Map.empty)
      | OllamaNoResponse \<Rightarrow> Inr (PDict Map.empty)
      | OllamaResponse analysis_text \<Rightarrow>
          (case (case loads analysis_text of
                   Some v \<Rightarrow> Inr v
                 | None \<Rightarrow>
                     (case ollama_fallback pf analysis_text of
                        Inl e \<Rightarrow> Inl e
                      | Inr a \<Rightarrow> Inr (py_of_analysis a))) of
             Inl e \<Rightarrow> Inr (PDict Map.empty)
           | Inr v \<Rightarrow> if has_len v then Inr v else Inr (PDict Map.empty)))"

section \<open>\<open>generate_report\<close>\<close>

record process =
  pid :: int
  name :: string
  exe :: string
  status :: string
  username :: string
  cpu_percent :: rat
  memory_percent :: rat

text \<open>
  \<open>urllib.parse.quote\<close> with its default \<open>safe='/'\<close>: letters, digits and \<open>_.-~/\<close> stay,
  every other character becomes the \<open>%XX\<close> of each byte of its UTF-8 encoding.
\<close>

definition is_unreserved :: "char \<Rightarrow> bool" where
  "is_unreserved c =
     (let n = (of_char c :: nat)
      in (65 \<le> n \<and> n \<le> 90) \<or> (97 \<le> n \<and> n \<le> 122) \<or> (48 \<le> n \<and> n \<le> 57)
         \<or> c \<in> set ''_.-~/'')"

definition percent :: "nat \<Rightarrow> string" where
  "percent n = [CHR ''%'', ''0123456789ABCDEF'' ! (n div 16), ''0123456789ABCDEF'' ! (n mod 16)]"

definition quote_char :: "char \<Rightarrow> string" where
  "quote_char c =
     (let n = (of_char c :: nat)
      in if is_unreserved c then [c]
         else if n < 128 then percent n
         else percent (192 + n div 64) @ percent (128 + n mod 64))"

definition quote :: "string \<Rightarrow> string" where
  "quote s = concat (map quote_char s)"

text \<open>\<open>s.replace(old, '', 1)\<close>: the first occurrence of \<open>old\<close> is removed.\<close>

fun remove_first :: "string \<Rightarrow> string \<Rightarrow> string" where
  "remove_first old [] = []"
| "remove_first old (c # cs) =
     (if startswith (c # cs) old then drop (length old) (c # cs)
      else c # remove_first old cs)"

text \<open>
  One \<open><div class="process">\<close> of the report, as the values the template of lines 393 to
  406 interpolates: the process, \<open>threat_score_num\<close>, the analysis text, the search link
  (the anchor is written when the link is not empty), the class and the displayed score.
  The displayed score is \<open>threat_score_num\<close> with one decimal, or \<open>'N/A'\<close>.
\<close>

datatype display = OneDecimal pyfloat | NotAvailable

record process_div =
  sec_process :: process
  data_threat_score :: pyfloat
  shown_analysis :: string
  search_link :: string
  threat_class :: string
  threat_score_display :: display

text \<open>Lines 377 to 389.\<close>

definition classify ::
  "(string \<Rightarrow> pyfloat option) \<Rightarrow> pyval \<Rightarrow> exn + pyfloat \<times> display \<times> string"
where
  "classify pf threat_score' =
     (case py_float pf threat_score' of
        Inr threat_score_num \<Rightarrow>
          Inr (threat_score_num, OneDecimal threat_score_num,
               if float_less threat_score_num 4 then ''threat-low''
               else if float_less threat_score_num 7 then ''threat-medium''
               else ''threat-high'')
      | Inl ValueError \<Rightarrow> Inr (Finite (- 1), NotAvailable, ''threat-low'')
      | Inl e \<Rightarrow> Inl e)"

text \<open>
  The body of the loop of line 372, for one process. The local variables \<open>analysis\<close>,
  \<open>description\<close> and \<open>threat_score\<close> carry a prime here, the plain names being fields above.
\<close>

definition render_process ::
  "(string \<Rightarrow> pyfloat option) \<Rightarrow> pyval \<Rightarrow> process \<Rightarrow> exn + process_div"
where
  "render_process pf analysis' p =
     (case dict_get analysis' (name p) (PDict Map.empty) of
        Inl e \<Rightarrow> Inl e
      | Inr process_analysis \<Rightarrow>
     (case dict_get process_analysis ''description'' (PStr ''No analysis available'') of
        Inl e \<Rightarrow> Inl e
      | Inr description' \<Rightarrow>
     (case dict_get process_analysis ''threat_score'' (PStr ''N/A'') of
        Inl e \<Rightarrow> Inl e
      | Inr threat_score' \<Rightarrow>
     (case classify pf threat_score' of
        Inl e \<Rightarrow> Inl e
      | Inr (threat_score_num, shown, cls) \<Rightarrow>
     (let link = (if eq_str description' ''No analysis available''
                  then ''https://duckduckgo.com/?q='' @ quote (name p) else '''')
      in case description' of
           PStr d \<Rightarrow>
             Inr \<lparr>sec_process = p,
                  data_threat_score = threat_score_num,
                  shown_analysis = strip (remove_first ''Typical function:'' d),
                  search_link = link,
                  threat_class = cls,
                  threat_score_display = shown\<rparr>
         | _ \<Rightarrow> Inl AttributeError)))))"

fun generate_report ::
  "(string \<Rightarrow> pyfloat option) \<Rightarrow> process list \<Rightarrow> pyval \<Rightarrow> exn + process_div list"
where
  "generate_report pf [] analysis' = Inr []"
| "generate_report pf (p # ps) analysis' =
     (case render_process pf analysis' p of
        Inl e \<Rightarrow> Inl e
      | Inr s \<Rightarrow>
          (case generate_report pf ps analysis' of
             Inl e \<Rightarrow> Inl e
           | Inr ss \<Rightarrow> Inr (s # ss)))"

section \<open>The script of the report\<close>

text \<open>
  \<open>sortProcesses('threat-score')\<close>, lines 324 to 343. The attribute \<open>data-threat-score\<close>
  is the text of \<open>threat_score_num\<close>; \<open>parseFloat\<close> reads a finite number back, and gives
  NaN for \<open>nan\<close>, \<open>inf\<close> and \<open>-inf\<close>. \<open>parseFloat(aVal) || -1\<close> is \<open>-1\<close> when the number is NaN
  or zero.
\<close>

fun sort_value :: "pyfloat \<Rightarrow> rat" where
  "sort_value (Finite x) = (if x = 0 then - 1 else x)"
| "sort_value v = - 1"

text \<open>The comparison function of line 326, for the order \<open>'asc'\<close> or \<open>'desc'\<close>.\<close>

definition compare_sections :: "bool \<Rightarrow> process_div \<Rightarrow> process_div \<Rightarrow> int" where
  "compare_sections asc a b =
     (let aVal = sort_value (data_threat_score a); bVal = sort_value (data_threat_score b)
      in if asc then (if aVal > bVal then 1 else if aVal < bVal then - 1 else 0)
         else (if aVal < bVal then 1 else if aVal > bVal then - 1 else 0))"

text \<open>\<open>Array.prototype.sort\<close> is stable: sections that compare as 0 keep their order.\<close>

fun insert_section :: "bool \<Rightarrow> process_div \<Rightarrow> process_div list \<Rightarrow> process_div list" where
  "insert_section asc s [] = [s]"
| "insert_section asc s (t # ts) =
     (if compare_sections asc s t \<le> 0 then s # t # ts
      else t # insert_section asc s ts)"

definition sortProcesses :: "bool \<Rightarrow> process_div list \<Rightarrow> process_div list" where
  "sortProcesses asc ss = foldr (insert_section asc) ss []"

section \<open>\<open>main\<close>\<close>

text \<open>
  Lines 429 to 466, for a snapshot that was gathered and saved, and a report file that
  can be written. The run ends with the report displayed (sorted by the script's first
  call, by descending threat score), or in the handler of line 463, or at line 448.
\<close>

datatype backend =
    UseOllama ollama_reply
  | UseAnthropic anthropic_reply
  | UseOpenAI openai_reply
  | Unsupported

datatype run = Displayed "process_div list" | CriticalError exn | UnsupportedProvider

definition main_run ::
  "(string \<Rightarrow> pyfloat option) \<Rightarrow> (string \<Rightarrow> pyval option) \<Rightarrow> process list \<Rightarrow> backend \<Rightarrow> run"
where
  "main_run pf loads processes b =
     (case (case b of
              UseOllama r \<Rightarrow> Some (analyze_processes_ollama pf loads r)
            | UseAnthropic r \<Rightarrow> Some (map_sum id py_of_analysis (analyze_processes_anthropic pf r))
            | UseOpenAI r \<Rightarrow> Some (map_sum id py_of_analysis (analyze_processes_openai pf r))
            | Unsupported \<Rightarrow> None) of
        None \<Rightarrow> UnsupportedProvider
      | Some (Inl e) \<Rightarrow> CriticalError e
      | Some (Inr analysis') \<Rightarrow>
          (case generate_report pf processes analysis' of
             Inl e \<Rightarrow> CriticalError e
           | Inr report \<Rightarrow> Displayed (sortProcesses False report)))"

section \<open>Sample inputs\<close>

text \<open>
  A fragment of \<open>float\<close> on strings, to evaluate the parsers on sample payloads: digits, or
  digits, a point and digits, with white space around. \<open>float\<close> accepts more (signs,
  exponents, underscores, a point with no digit on one side, \<open>inf\<close>, \<open>nan\<close>); on the texts
  evaluated below (\<open>0\<close>, \<open>1\<close>, \<open>5\<close>, \<open>9\<close>, \<open>high\<close>, \<open>n/a\<close>, \<open>N/A\<close>, \<open>5:30\<close>) the two agree.
\<close>

fun digits_value :: "string \<Rightarrow> nat option" where
  "digits_value [] = Some 0"
| "digits_value (c # cs) =
     (let n = (of_char c :: nat)
      in if 48 \<le> n \<and> n \<le> 57
         then map_option (\<lambda>v. (n - 48) * 10 ^ length cs + v) (digits_value cs)
         else None)"

definition decimal_float :: "string \<Rightarrow> pyfloat option" where
  "decimal_float s =
     (case split_on CHR ''.'' (strip s) of
        [a] \<Rightarrow> (if a = [] then None
                else map_option (\<lambda>n. Finite (of_nat n)) (digits_value a))
      | [a, b] \<Rightarrow>
          (if a = [] \<or> b = [] then None
           else (case (digits_value a, digits_value b) of
                   (Some n, Some m) \<Rightarrow> Some (Finite (of_nat n + of_nat m / 10 ^ length b))
                 | _ \<Rightarrow> None))
      | _ \<Rightarrow> None)"

text \<open>
  \<open>json.loads\<close> on the one JSON text evaluated below; every other text is taken as not
  JSON.
\<close>

definition null_score_json :: string where
  "null_score_json = ''{\"a.exe\": {\"description\": \"x\", \"threat_score\": null}}''"

definition sample_loads :: "string \<Rightarrow> pyval option" where
  "sample_loads s =
     (if s = null_score_json
      then Some (PDict [''a.exe'' \<mapsto> PDict [''description'' \<mapsto> PStr ''x'', ''threat_score'' \<mapsto> PNone]])
      else None)"

section \<open>The labelled-block pattern of the prompt\<close>

text \<open>
  The prompts of lines 86 to 89 and 233 to 236 ask for blocks of labelled lines. A block
  is the text after \<open>Process Name:\<close> and the lines that follow up to the next such line:
  \<open>Description:\<close> lines, \<open>Threat Score:\<close> lines, and lines with none of the three labels
  (continuation lines and blank lines).
\<close>

datatype body_line = DescriptionLine string | ThreatScoreLine string | OtherLine string

fun line_of :: "body_line \<Rightarrow> string" where
  "line_of (DescriptionLine v) = ''Description:'' @ v"
| "line_of (ThreatScoreLine v) = ''Threat Score:'' @ v"
| "line_of (OtherLine l) = l"

definition unlabelled :: "string \<Rightarrow> bool" where
  "unlabelled l =
     (\<not> startswith l ''Process Name:'' \<and> \<not> startswith l ''Description:''
      \<and> \<not> startswith l ''Threat Score:'')"

text \<open>A score has no further colon; a line given as unlabelled is so.\<close>

fun well_formed_line :: "body_line \<Rightarrow> bool" where
  "well_formed_line (DescriptionLine v) = True"
| "well_formed_line (ThreatScoreLine v) = (CHR '':'' \<notin> set v)"
| "well_formed_line (OtherLine l) = unlabelled l"

text \<open>A name has no further colon and is not blank.\<close>

fun well_formed_block :: "string \<times> body_line list \<Rightarrow> bool" where
  "well_formed_block (r, body) =
     (CHR '':'' \<notin> set r \<and> strip r \<noteq> [] \<and> list_all well_formed_line body)"

fun block_lines :: "string \<times> body_line list \<Rightarrow> string list" where
  "block_lines (r, body) = (''Process Name:'' @ r) # map line_of body"

definition pattern_lines :: "(string \<times> body_line list) list \<Rightarrow> string list" where
  "pattern_lines blocks = concat (map block_lines blocks)"

text \<open>
  The description the specification gives a block: the values of its \<open>Description:\<close>
  lines and its continuation lines that are not blank, each trimmed, joined by spaces.
\<close>

fun spec_part :: "body_line \<Rightarrow> string list" where
  "spec_part (DescriptionLine v) = [strip v]"
| "spec_part (ThreatScoreLine v) = []"
| "spec_part (OtherLine l) = (if strip l = [] then [] else [strip l])"

definition spec_description :: "body_line list \<Rightarrow> string" where
  "spec_description body = join_space (concat (map spec_part body))"

text \<open>The score of a block: that of its last \<open>Threat Score:\<close> line, if it has one.\<close>

fun spec_score :: "(string \<Rightarrow> pyfloat option) \<Rightarrow> score option \<Rightarrow> body_line list \<Rightarrow> score option" where
  "spec_score pf s [] = s"
| "spec_score pf s (ThreatScoreLine v # body) =
     spec_score pf (Some (case pf (strip v) of Some x \<Rightarrow> Num x | None \<Rightarrow> NA)) body"
| "spec_score pf s (DescriptionLine v # body) = spec_score pf s body"
| "spec_score pf s (OtherLine l # body) = spec_score pf s body"

definition spec_entry :: "(string \<Rightarrow> pyfloat option) \<Rightarrow> body_line list \<Rightarrow> entry" where
  "spec_entry pf body =
     \<lparr>description = Some (spec_description body), threat_score = spec_score pf None body\<rparr>"

text \<open>The mapping of a list of blocks: a later block replaces an earlier one of its name.\<close>

fun spec_result ::
  "(string \<Rightarrow> pyfloat option) \<Rightarrow> analysis \<Rightarrow> (string \<times> body_line list) list \<Rightarrow> analysis"
where
  "spec_result pf m [] = m"
| "spec_result pf m ((r, body) # blocks) = spec_result pf (m(strip r \<mapsto> spec_entry pf body)) blocks"

text \<open>The value of the last \<open>Description:\<close> line of a block, if it has one.\<close>

fun last_description :: "string option \<Rightarrow> body_line list \<Rightarrow> string option" where
  "last_description d [] = d"
| "last_description d (DescriptionLine v # body) = last_description (Some (strip v)) body"
| "last_description d (ThreatScoreLine v # body) = last_description d body"
| "last_description d (OtherLine l # body) = last_description d body"

text \<open>
  The three-line pattern proper, blank lines allowed between its lines: one
  \<open>Description:\<close> line per block, and no continuation line.
\<close>

fun simple_line :: "body_line \<Rightarrow> bool" where
  "simple_line (DescriptionLine v) = True"
| "simple_line (ThreatScoreLine v) = (CHR '':'' \<notin> set v)"
| "simple_line (OtherLine l) = (strip l = [])"

fun is_description :: "body_line \<Rightarrow> bool" where
  "is_description (DescriptionLine v) = True"
| "is_description (ThreatScoreLine v) = False"
| "is_description (OtherLine l) = False"

fun simple_block :: "string \<times> body_line list \<Rightarrow> bool" where
  "simple_block (r, body) =
     (CHR '':'' \<notin> set r \<and> strip r \<noteq> [] \<and> list_all simple_line body
      \<and> length (filter is_description body) = 1)"

section \<open>Properties of lines and of loop states\<close>

text \<open>The name a line opens, when it is a \<open>Process Name:\<close> line.\<close>

definition process_name_of :: "string \<Rightarrow> string option" where
  "process_name_of line =
     (if startswith line ''Process Name:''
      then (case split_colon_1 line of Inr p \<Rightarrow> Some (strip p) | Inl e \<Rightarrow> None)
      else None)"

text \<open>A \<open>Threat Score:\<close> line comes before the first \<open>Process Name:\<close> line.\<close>

fun stray_score :: "string list \<Rightarrow> bool" where
  "stray_score [] = False"
| "stray_score (line # rest) =
     (if startswith line ''Process Name:'' then False
      else if startswith line ''Description:'' then stray_score rest
      else if startswith line ''Threat Score:'' then True
      else stray_score rest)"

text \<open>A process is open: \<open>current_process\<close> is a key of \<open>analysis\<close>.\<close>

definition opened :: "pstate \<Rightarrow> bool" where
  "opened st =
     (case current_process st of
        None \<Rightarrow> False
      | Some k \<Rightarrow> analysis st k \<noteq> None)"

text \<open>
  Two loop states that have the same open process and the same description parts, and
  the same entry for the name \<open>X\<close>.
\<close>

definition agree_on :: "string \<Rightarrow> pstate \<Rightarrow> pstate \<Rightarrow> bool" where
  "agree_on X st st' =
     (current_process st = current_process st' \<and> parts st = parts st'
      \<and> analysis st X = analysis st' X \<and> analysis st X \<noteq> None
      \<and> opened st \<and> opened st')"

text \<open>The entry a parse gives a name; none when the parse raised.\<close>

definition entry_of :: "exn + analysis \<Rightarrow> string \<Rightarrow> entry option" where
  "entry_of r k = (case r of Inr m \<Rightarrow> m k | Inl e \<Rightarrow> None)"

text \<open>The exception a call raised, if it raised.\<close>

definition raised :: "exn + 'a \<Rightarrow> exn option" where
  "raised r = (case r of Inl e \<Rightarrow> Some e | Inr v \<Rightarrow> None)"

section \<open>Sample payloads\<close>

definition sample_payload :: string where
  "sample_payload =
     ''Process Name: svchost.exe\<newline>Description: Hosts Windows services.\<newline>Often many instances.\<newline>Threat Score: 1\<newline>Process Name: notepad.exe \<newline>Description: Text editor.\<newline>Threat Score: 0''"

definition sample_blocks :: "(string \<times> body_line list) list" where
  "sample_blocks =
     [('' svchost.exe'',
       [DescriptionLine '' Hosts Windows services.'', OtherLine ''Often many instances.'',
        ThreatScoreLine '' 1'']),
      ('' notepad.exe '',
       [DescriptionLine '' Text editor.'', ThreatScoreLine '' 0''])]"

definition process_a :: process where
  "process_a =
     \<lparr>pid = 4, name = ''a.exe'', exe = ''C:/Windows/a.exe'', status = ''running'',
      username = ''SYSTEM'', cpu_percent = 0, memory_percent = 1 / 2\<rparr>"

definition process_b :: process where
  "process_b =
     \<lparr>pid = 812, name = ''b.exe'', exe = ''Unknown'', status = ''running'',
      username = ''Unknown'', cpu_percent = 3, memory_percent = 2\<rparr>"

text \<open>The name and the displayed score of each section of a displayed report, in order.\<close>

definition displayed_scores :: "run \<Rightarrow> (string \<times> display) list option" where
  "displayed_scores r =
     (case r of
        Displayed ss \<Rightarrow> Some (map (\<lambda>s. (name (sec_process s), threat_score_display s)) ss)
      | CriticalError e \<Rightarrow> None
      | UnsupportedProvider \<Rightarrow> None)"

text \<open>A loop state with the process \<open>a.exe\<close> open.\<close>

definition open_state :: pstate where
  "open_state =
     \<lparr>analysis = [''a.exe'' \<mapsto> empty_entry], current_process = Some ''a.exe'', parts = []\<rparr>"


text \<open>The description a returned Python value holds for a name, when it is a string.\<close>

definition description_in :: "exn + pyval \<Rightarrow> string \<Rightarrow> string option" where
  "description_in r k =
     (case r of
        Inl e \<Rightarrow> None
      | Inr v \<Rightarrow>
          (case dict_get v k PNone of
             Inl e \<Rightarrow> None
           | Inr entry \<Rightarrow>
               (case dict_get entry ''description'' PNone of
                  Inr (PStr d) \<Rightarrow> Some d
                | _ \<Rightarrow> None)))"


text \<open>The three-line pattern with blank lines between the blocks and at the end.\<close>

definition simple_payload :: string where
  "simple_payload =
     ''Process Name: a.exe\<newline>Description: Hosts services.\<newline>Threat Score: 1\<newline>\<newline>Process Name: b.exe\<newline>Description: Text editor.\<newline>Threat Score: n/a\<newline>''"

definition simple_blocks :: "(string \<times> body_line list) list" where
  "simple_blocks =
     [('' a.exe'',
       [DescriptionLine '' Hosts services.'', ThreatScoreLine '' 1'', OtherLine '''']),
      ('' b.exe'',
       [DescriptionLine '' Text editor.'', ThreatScoreLine '' n/a'', OtherLine ''''])]"

section \<open>Lemmas on strings\<close>

lemma split_on_not_Nil: "split_on sep s \<noteq> []"
  by (induction s) (auto split: list.splits)

lemma split_on_sep_free: "sep \<notin> set s \<Longrightarrow> split_on sep s = [s]"
  by (induction s) auto

lemma split_on_append_sep:
  "sep \<notin> set a \<Longrightarrow> split_on sep (a @ sep # r) = a # split_on sep r"
  by (induction a) auto

lemma split_on_pieces_sep_free: "p \<in> set (split_on sep s) \<Longrightarrow> sep \<notin> set p"
  by (induction s arbitrary: p) (auto split: if_splits list.splits)

lemma split_on_join_lines:
  "ls \<noteq> [] \<Longrightarrow> \<forall>l \<in> set ls. CHR 0x0A \<notin> set l \<Longrightarrow> split_on CHR 0x0A (join_lines ls) = ls"
proof (induction ls rule: join_lines.induct)
  case 1
  then show ?case by simp
next
  case (2 p)
  then show ?case by (simp add: split_on_sep_free)
next
  case (3 p q ps)
  then show ?case by (simp add: split_on_append_sep)
qed

lemma startswith_iff: "startswith s p \<longleftrightarrow> (\<exists>r. s = p @ r)"
  by (induction s p rule: startswith.induct) auto

lemma split_colon_1_label:
  "CHR '':'' \<notin> set lbl \<Longrightarrow>
   split_colon_1 (lbl @ CHR '':'' # v) = Inr (takeWhile (\<lambda>c. c \<noteq> CHR '':'') v)"
proof -
  assume a: "CHR '':'' \<notin> set lbl"
  have "split_on CHR '':'' v \<noteq> []" by (rule split_on_not_Nil)
  moreover have "hd (split_on CHR '':'' v) = takeWhile (\<lambda>c. c \<noteq> CHR '':'') v"
    by (induction v) (auto split: list.splits simp: split_on_not_Nil)
  ultimately show ?thesis using a
    by (cases "split_on CHR '':'' v") (auto simp: split_colon_1_def split_on_append_sep)
qed

lemma strip_Nil_iff: "strip s = [] \<longleftrightarrow> (\<forall>c \<in> set s. is_space c)"
proof
  assume "strip s = []"
  then have "dropWhile is_space s = []"
    by (simp add: strip_def dropWhile_eq_Nil_conv) (metis dropWhile_eq_Nil_conv set_rev rev_is_Nil_conv dropWhile_idem)
  then show "\<forall>c \<in> set s. is_space c" by (simp add: dropWhile_eq_Nil_conv)
next
  assume "\<forall>c \<in> set s. is_space c"
  then have h: "dropWhile is_space s = []" by simp
  show "strip s = []" unfolding strip_def h by simp
qed

lemma not_space_colon: "\<not> is_space CHR '':''"
  by (simp add: is_space_def)


section \<open>Lemmas on the parsing loop\<close>

lemma takeWhile_colon_free:
  "CHR '':'' \<notin> set v \<Longrightarrow> takeWhile (\<lambda>c. c \<noteq> CHR '':'') v = v"
  by (induction v) auto

lemma flush_init: "flush init_pstate = Inr Map.empty"
  by (simp add: flush_def init_pstate_def)

lemma line_process_name:
  assumes "CHR '':'' \<notin> set r" and "flush st = Inr a"
  shows "anthropic_line pf st (''Process Name:'' @ r) =
         Inr \<lparr>analysis = a(strip r \<mapsto> empty_entry), current_process = Some (strip r), parts = []\<rparr>"
proof -
  have "split_colon_1 (''Process Name'' @ CHR '':'' # r) = Inr (takeWhile (\<lambda>c. c \<noteq> CHR '':'') r)"
    by (rule split_colon_1_label) simp
  moreover have "takeWhile (\<lambda>c. c \<noteq> CHR '':'') r = r"
    using assms(1) by (rule takeWhile_colon_free)
  ultimately have "split_colon_1 (''Process Name:'' @ r) = Inr r" by simp
  then show ?thesis using assms(2) by (simp add: anthropic_line_def)
qed

lemma line_description:
  "anthropic_line pf st (''Description:'' @ v) = Inr (st\<lparr>parts := parts st @ [strip v]\<rparr>)"
  by (simp add: anthropic_line_def after_colon_def)

lemma line_threat_score:
  assumes "current_process st = Some k" and "analysis st k = Some e"
  shows "anthropic_line pf st (''Threat Score:'' @ v) =
         Inr (st\<lparr>analysis := (analysis st)(k \<mapsto>
                e\<lparr>threat_score := Some (score_of pf (strip (takeWhile (\<lambda>c. c \<noteq> CHR '':'') v)))\<rparr>)\<rparr>)"
proof -
  have "split_colon_1 (''Threat Score'' @ CHR '':'' # v) = Inr (takeWhile (\<lambda>c. c \<noteq> CHR '':'') v)"
    by (rule split_colon_1_label) simp
  then have "split_colon_1 (''Threat Score:'' @ v) = Inr (takeWhile (\<lambda>c. c \<noteq> CHR '':'') v)" by simp
  then show ?thesis using assms by (simp add: anthropic_line_def set_threat_score_def)
qed

lemma line_unlabelled:
  "unlabelled l \<Longrightarrow>
   anthropic_line pf st l =
   Inr (if strip l \<noteq> [] \<and> truthy (current_process st) then st\<lparr>parts := parts st @ [strip l]\<rparr> else st)"
  by (simp add: anthropic_line_def unlabelled_def)

lemma line_of_description:
  "anthropic_line pf st (line_of (DescriptionLine v)) = Inr (st\<lparr>parts := parts st @ [strip v]\<rparr>)"
  by (simp only: line_of.simps line_description)

lemma line_of_other:
  "unlabelled l \<Longrightarrow>
   anthropic_line pf st (line_of (OtherLine l)) =
   Inr (if strip l \<noteq> [] \<and> truthy (current_process st) then st\<lparr>parts := parts st @ [strip l]\<rparr> else st)"
  by (simp only: line_of.simps line_unlabelled)

lemma line_of_threat_score:
  assumes "current_process st = Some k" and "analysis st k = Some e" and "CHR '':'' \<notin> set v"
  shows "anthropic_line pf st (line_of (ThreatScoreLine v)) =
         Inr (st\<lparr>analysis := (analysis st)(k \<mapsto> e\<lparr>threat_score := Some (score_of pf (strip v))\<rparr>)\<rparr>)"
  using line_threat_score[OF assms(1,2), of pf v] takeWhile_colon_free[OF assms(3)]
  by (simp only: line_of.simps)

lemma loop_append:
  "anthropic_loop pf st (xs @ ys) =
   (case anthropic_loop pf st xs of Inl e \<Rightarrow> Inl e | Inr st' \<Rightarrow> anthropic_loop pf st' ys)"
  by (induction xs arbitrary: st) (auto split: sum.splits)

lemma loop_body:
  assumes "list_all well_formed_line body" and "a k = Some e" and "k \<noteq> []"
  shows "anthropic_loop pf \<lparr>analysis = a, current_process = Some k, parts = ps\<rparr> (map line_of body) =
         Inr \<lparr>analysis = a(k \<mapsto> e\<lparr>threat_score := spec_score pf (threat_score e) body\<rparr>),
              current_process = Some k,
              parts = ps @ concat (map spec_part body)\<rparr>"
  using assms
proof (induction body arbitrary: a e ps)
  case Nil
  then show ?case by (simp add: map_upd_triv)
next
  case (Cons b body)
  show ?case
  proof (cases b)
    case (DescriptionLine v)
    with Cons show ?thesis by (simp add: line_of_description del: line_of.simps)
  next
    case (ThreatScoreLine v)
    let ?e = "e\<lparr>threat_score := Some (score_of pf (strip v))\<rparr>"
    have step: "anthropic_line pf \<lparr>analysis = a, current_process = Some k, parts = ps\<rparr>
                  (line_of (ThreatScoreLine v))
                = Inr \<lparr>analysis = a(k \<mapsto> ?e), current_process = Some k, parts = ps\<rparr>"
      using line_of_threat_score[of "\<lparr>analysis = a, current_process = Some k, parts = ps\<rparr>" k e v pf]
        Cons.prems ThreatScoreLine by simp
    have ih: "anthropic_loop pf \<lparr>analysis = a(k \<mapsto> ?e), current_process = Some k, parts = ps\<rparr> (map line_of body) =
         Inr \<lparr>analysis = (a(k \<mapsto> ?e))(k \<mapsto> ?e\<lparr>threat_score := spec_score pf (threat_score ?e) body\<rparr>),
              current_process = Some k,
              parts = ps @ concat (map spec_part body)\<rparr>"
      using Cons.prems by (intro Cons.IH) simp_all
    show ?thesis using ThreatScoreLine step ih
      by (simp add: score_of_def fun_eq_iff del: line_of.simps)
  next
    case (OtherLine l)
    with Cons show ?thesis by (simp add: line_of_other del: line_of.simps)
  qed
qed

lemma loop_block:
  assumes "well_formed_block (r, body)" and "flush st = Inr a"
  shows "\<exists>st'. anthropic_loop pf st (block_lines (r, body)) = Inr st'
           \<and> flush st' = Inr (a(strip r \<mapsto> spec_entry pf body))"
proof -
  from assms(1) have r: "CHR '':'' \<notin> set r" "strip r \<noteq> []" and b: "list_all well_formed_line body"
    by simp_all
  let ?a = "a(strip r \<mapsto> empty_entry)"
  let ?st0 = "\<lparr>analysis = ?a, current_process = Some (strip r), parts = []\<rparr>"
  let ?st1 = "\<lparr>analysis = ?a(strip r \<mapsto> empty_entry\<lparr>threat_score := spec_score pf (threat_score empty_entry) body\<rparr>),
              current_process = Some (strip r),
              parts = [] @ concat (map spec_part body)\<rparr>"
  have first: "anthropic_line pf st (''Process Name:'' @ r) = Inr ?st0"
    using r(1) assms(2) by (rule line_process_name)
  have rest: "anthropic_loop pf ?st0 (map line_of body) = Inr ?st1"
    using b r(2) by (intro loop_body) simp_all
  have "anthropic_loop pf st (block_lines (r, body)) = Inr ?st1"
    unfolding block_lines.simps anthropic_loop.simps first using rest by simp
  moreover have "flush ?st1 = Inr (a(strip r \<mapsto> spec_entry pf body))"
    using r(2) by (simp add: flush_def set_description_def spec_entry_def
        spec_description_def empty_entry_def)
  ultimately show ?thesis by blast
qed

lemma loop_blocks:
  assumes "list_all well_formed_block blocks" and "flush st = Inr a"
  shows "\<exists>st'. anthropic_loop pf st (pattern_lines blocks) = Inr st'
           \<and> flush st' = Inr (spec_result pf a blocks)"
  using assms
proof (induction blocks arbitrary: st a)
  case Nil
  then show ?case by (simp add: pattern_lines_def)
next
  case (Cons b blocks)
  obtain r body where b: "b = (r, body)" by (cases b)
  with Cons.prems obtain st1 where
    s1: "anthropic_loop pf st (block_lines (r, body)) = Inr st1"
    and f1: "flush st1 = Inr (a(strip r \<mapsto> spec_entry pf body))"
    using loop_block[of r body st a pf] by auto
  from Cons.prems have "list_all well_formed_block blocks" by simp
  from Cons.IH[OF this f1] obtain st2 where
    "anthropic_loop pf st1 (pattern_lines blocks) = Inr st2"
    "flush st2 = Inr (spec_result pf (a(strip r \<mapsto> spec_entry pf body)) blocks)" by blast
  then show ?case using s1 b
    by (simp add: pattern_lines_def loop_append del: block_lines.simps)
qed

lemma parse_pattern:
  assumes "split_lines content = pattern_lines blocks" and "list_all well_formed_block blocks"
  shows "anthropic_parse pf content = Inr (spec_result pf Map.empty blocks)"
  using loop_blocks[OF assms(2) flush_init, of pf] assms(1)
  by (auto simp: anthropic_parse_def)

lemma dom_spec_result:
  "dom (spec_result pf m blocks) = dom m \<union> (\<lambda>b. strip (fst b)) ` set blocks"
proof (induction blocks arbitrary: m)
  case Nil
  show ?case by simp
next
  case (Cons b blocks)
  obtain r body where b: "b = (r, body)" by (cases b)
  have "dom (spec_result pf (m(strip r \<mapsto> spec_entry pf body)) blocks)
        = dom (m(strip r \<mapsto> spec_entry pf body)) \<union> (\<lambda>b. strip (fst b)) ` set blocks"
    by (rule Cons.IH)
  also have "\<dots> = dom m \<union> (\<lambda>b. strip (fst b)) ` set (b # blocks)"
    using b by auto
  finally show ?case using b by simp
qed

lemma spec_result_other:
  "k \<notin> (\<lambda>b. strip (fst b)) ` set blocks \<Longrightarrow> spec_result pf m blocks k = m k"
proof (induction blocks arbitrary: m)
  case Nil
  show ?case by simp
next
  case (Cons b blocks)
  obtain r body where b: "b = (r, body)" by (cases b)
  from Cons.prems b have k: "k \<noteq> strip r" "k \<notin> (\<lambda>b. strip (fst b)) ` set blocks" by auto
  have "spec_result pf (m(strip r \<mapsto> spec_entry pf body)) blocks k
        = (m(strip r \<mapsto> spec_entry pf body)) k"
    using k(2) by (rule Cons.IH)
  then show ?case using b k(1) by simp
qed

lemma spec_result_last:
  "strip r \<notin> (\<lambda>b. strip (fst b)) ` set post \<Longrightarrow>
   spec_result pf m (pre @ (r, body) # post) (strip r) = Some (spec_entry pf body)"
proof (induction pre arbitrary: m)
  case Nil
  then show ?case by (simp add: spec_result_other)
next
  case (Cons b pre)
  obtain r' body' where b: "b = (r', body')" by (cases b)
  have "spec_result pf (m(strip r' \<mapsto> spec_entry pf body')) (pre @ (r, body) # post) (strip r)
        = Some (spec_entry pf body)"
    using Cons.prems by (rule Cons.IH)
  then show ?case using b by simp
qed

lemma openai_line_eq: "openai_line pf st line = anthropic_line pf st line"
  by (simp add: openai_line_def anthropic_line_def)

lemma openai_loop_eq: "openai_loop pf st ls = anthropic_loop pf st ls"
  by (induction ls arbitrary: st) (simp_all add: openai_line_eq split: sum.splits)

lemma openai_parse_eq: "openai_parse pf content = anthropic_parse pf content"
  by (simp add: openai_parse_def anthropic_parse_def openai_loop_eq)

lemma analyze_anthropic_text:
  "analyze_processes_anthropic pf (AnthropicMessage [TextBlock content]) =
   (case anthropic_parse pf content of Inl e \<Rightarrow> Inr Map.empty | Inr a \<Rightarrow> Inr a)"
  by (simp add: analyze_processes_anthropic_def)

lemma analyze_openai_text:
  "analyze_processes_openai pf (OpenAIMessage (Some content)) =
   (case anthropic_parse pf content of Inl e \<Rightarrow> Inr Map.empty | Inr a \<Rightarrow> Inr a)"
  by (simp add: analyze_processes_openai_def openai_parse_eq)


lemma process_name_line:
  assumes "startswith l ''Process Name:''"
  shows "\<exists>n. process_name_of l = Some n"
proof -
  from assms obtain r where "l = ''Process Name:'' @ r"
    by (auto simp: startswith_iff)
  then have "l = ''Process Name'' @ CHR '':'' # r" by simp
  then have "split_colon_1 l = Inr (takeWhile (\<lambda>c. c \<noteq> CHR '':'') r)"
    using split_colon_1_label[of "''Process Name''" r] by simp
  with assms show ?thesis by (simp add: process_name_of_def)
qed

lemma threat_score_line:
  assumes "startswith l ''Threat Score:''"
  shows "\<not> startswith l ''Process Name:'' \<and> \<not> startswith l ''Description:''
         \<and> (\<exists>v. split_colon_1 l = Inr v)"
proof -
  from assms obtain r where l: "l = ''Threat Score:'' @ r"
    by (auto simp: startswith_iff)
  then have "l = ''Threat Score'' @ CHR '':'' # r" by simp
  then have "split_colon_1 l = Inr (takeWhile (\<lambda>c. c \<noteq> CHR '':'') r)"
    using split_colon_1_label[of "''Threat Score''" r] by simp
  with l show ?thesis by simp
qed

lemma description_line:
  assumes "startswith l ''Description:''"
  shows "\<not> startswith l ''Process Name:'' \<and> (\<exists>v. after_colon l = Inr v)"
proof -
  from assms obtain r where l: "l = ''Description:'' @ r"
    by (auto simp: startswith_iff)
  then show ?thesis by (simp add: after_colon_def)
qed

lemma step_process_name:
  assumes "process_name_of l = Some n" and "flush st = Inr a"
  shows "anthropic_line pf st l =
         Inr \<lparr>analysis = a(n \<mapsto> empty_entry), current_process = Some n, parts = []\<rparr>"
  using assms
  by (auto simp: process_name_of_def anthropic_line_def split: if_splits sum.splits)

lemma step_description:
  assumes "startswith l ''Description:''"
  shows "\<exists>v. anthropic_line pf st l = Inr (st\<lparr>parts := parts st @ [v]\<rparr>)"
  using description_line[OF assms] by (auto simp: anthropic_line_def assms)

lemma step_threat_score:
  assumes "startswith l ''Threat Score:''" and "current_process st = Some k" and "analysis st k = Some e"
  shows "\<exists>s. anthropic_line pf st l =
              Inr (st\<lparr>analysis := (analysis st)(k \<mapsto> e\<lparr>threat_score := Some s\<rparr>)\<rparr>)"
  using threat_score_line[OF assms(1)] assms
  by (auto simp: anthropic_line_def set_threat_score_def)

lemma flush_opened:
  assumes "opened st"
  shows "\<exists>a. flush st = Inr a \<and> dom a = dom (analysis st)"
  using assms
  by (auto simp: opened_def flush_def set_description_def split: option.splits)

lemma step_opened:
  assumes "opened st"
  shows "\<exists>t. anthropic_line pf st l = Inr t \<and> opened t"
proof -
  from assms obtain k e where k: "current_process st = Some k" "analysis st k = Some e"
    by (auto simp: opened_def split: option.splits)
  consider (name) "startswith l ''Process Name:''"
    | (desc) "\<not> startswith l ''Process Name:''" "startswith l ''Description:''"
    | (score) "startswith l ''Threat Score:''"
    | (other) "unlabelled l"
    by (auto simp: unlabelled_def)
  then show ?thesis
  proof cases
    case name
    then obtain n where "process_name_of l = Some n" using process_name_line by blast
    moreover obtain a where "flush st = Inr a" using flush_opened[OF assms] by blast
    ultimately show ?thesis using step_process_name[of l n st a pf] by (simp add: opened_def)
  next
    case desc
    then show ?thesis using step_description[of l pf st] k by (auto simp: opened_def)
  next
    case score
    then show ?thesis using step_threat_score[OF score k, of pf] k by (auto simp: opened_def)
  next
    case other
    then show ?thesis using k by (simp add: line_unlabelled opened_def)
  qed
qed

lemma agree_onD:
  assumes "agree_on X st st'"
  obtains k e e' x where "current_process st = Some k" "analysis st k = Some e"
    "current_process st' = Some k" "analysis st' k = Some e'"
    "analysis st X = Some x" "analysis st' X = Some x" "parts st = parts st'"
proof -
  from assms[unfolded agree_on_def]
  have c: "current_process st = current_process st'" and p: "parts st = parts st'"
    and x: "analysis st X = analysis st' X" "analysis st X \<noteq> None"
    and o: "opened st" "opened st'"
    by blast+
  from o(1) obtain k e where k: "current_process st = Some k" "analysis st k = Some e"
    by (auto simp: opened_def split: option.splits)
  from o(2) c k(1) obtain e' where k': "analysis st' k = Some e'"
    by (auto simp: opened_def split: option.splits)
  from x obtain y where "analysis st X = Some y" "analysis st' X = Some y"
    by (cases "analysis st X") auto
  with that k k' c p show thesis by simp
qed

lemma agree_onI:
  assumes "current_process t = Some k" "current_process t' = Some k" "parts t = parts t'"
    "analysis t k \<noteq> None" "analysis t' k \<noteq> None"
    "analysis t X = Some x" "analysis t' X = Some x"
  shows "agree_on X t t'"
  using assms by (simp add: agree_on_def opened_def)

lemma agree_flush:
  assumes "agree_on X st st'"
  shows "\<exists>a a' x. flush st = Inr a \<and> flush st' = Inr a' \<and> a X = Some x \<and> a' X = Some x"
proof -
  from assms obtain k e e' x where k: "current_process st = Some k" "analysis st k = Some e"
    "current_process st' = Some k" "analysis st' k = Some e'"
    "analysis st X = Some x" "analysis st' X = Some x" "parts st = parts st'"
    by (rule agree_onD)
  show ?thesis
  proof (cases "k = X")
    case True
    with k have "e = e'" by simp
    with k True show ?thesis by (auto simp: flush_def set_description_def)
  next
    case False
    with k show ?thesis by (auto simp: flush_def set_description_def)
  qed
qed

lemma agree_step:
  assumes "agree_on X st st'" and "process_name_of l \<noteq> Some X"
  shows "\<exists>t t'. anthropic_line pf st l = Inr t \<and> anthropic_line pf st' l = Inr t'
                \<and> agree_on X t t'"
proof -
  from assms(1) obtain k e e' x where k: "current_process st = Some k" "analysis st k = Some e"
    "current_process st' = Some k" "analysis st' k = Some e'"
    and x: "analysis st X = Some x" "analysis st' X = Some x" and p: "parts st = parts st'"
    by (rule agree_onD)
  consider (name) "startswith l ''Process Name:''"
    | (desc) "\<not> startswith l ''Process Name:''" "startswith l ''Description:''"
    | (score) "startswith l ''Threat Score:''"
    | (other) "unlabelled l"
    by (auto simp: unlabelled_def)
  then show ?thesis
  proof cases
    case name
    then obtain n where n: "process_name_of l = Some n" using process_name_line by blast
    with assms(2) have nx: "n \<noteq> X" by auto
    obtain a a' y where a: "flush st = Inr a" "flush st' = Inr a'" "a X = Some y" "a' X = Some y"
      using agree_flush[OF assms(1)] by blast
    let ?t = "\<lparr>analysis = a(n \<mapsto> empty_entry), current_process = Some n, parts = []\<rparr>"
    let ?t' = "\<lparr>analysis = a'(n \<mapsto> empty_entry), current_process = Some n, parts = []\<rparr>"
    have "agree_on X ?t ?t'"
      using a nx by (intro agree_onI[where k = n and x = y]) simp_all
    then show ?thesis
      using step_process_name[OF n a(1), of pf] step_process_name[OF n a(2), of pf] by simp
  next
    case desc
    then obtain v where v: "after_colon l = Inr v" using description_line by blast
    let ?t = "st\<lparr>parts := parts st @ [strip v]\<rparr>"
    let ?t' = "st'\<lparr>parts := parts st' @ [strip v]\<rparr>"
    have "anthropic_line pf st l = Inr ?t" "anthropic_line pf st' l = Inr ?t'"
      using desc v by (simp_all add: anthropic_line_def)
    moreover have "agree_on X ?t ?t'"
      using k x p by (intro agree_onI[where k = k and x = x]) simp_all
    ultimately show ?thesis by blast
  next
    case score
    then obtain v where v: "split_colon_1 l = Inr v"
      and no: "\<not> startswith l ''Process Name:''" "\<not> startswith l ''Description:''"
      using threat_score_line by blast
    let ?s = "score_of pf (strip v)"
    let ?t = "st\<lparr>analysis := (analysis st)(k \<mapsto> e\<lparr>threat_score := Some ?s\<rparr>)\<rparr>"
    let ?t' = "st'\<lparr>analysis := (analysis st')(k \<mapsto> e'\<lparr>threat_score := Some ?s\<rparr>)\<rparr>"
    have "anthropic_line pf st l = Inr ?t" "anthropic_line pf st' l = Inr ?t'"
      using score v no k by (simp_all add: anthropic_line_def set_threat_score_def)
    moreover have "agree_on X ?t ?t'"
    proof (cases "k = X")
      case True
      with k x have "e = x" "e' = x" by simp_all
      with True k p show ?thesis
        by (intro agree_onI[where k = k and x = "x\<lparr>threat_score := Some ?s\<rparr>"]) simp_all
    next
      case False
      with k x p show ?thesis
        by (intro agree_onI[where k = k and x = x]) simp_all
    qed
    ultimately show ?thesis by blast
  next
    case other
    let ?t = "if strip l \<noteq> [] \<and> k \<noteq> [] then st\<lparr>parts := parts st @ [strip l]\<rparr> else st"
    let ?t' = "if strip l \<noteq> [] \<and> k \<noteq> [] then st'\<lparr>parts := parts st' @ [strip l]\<rparr> else st'"
    have "anthropic_line pf st l = Inr ?t" "anthropic_line pf st' l = Inr ?t'"
      using other k by (simp_all add: line_unlabelled)
    moreover have "agree_on X ?t ?t'"
      using k x p by (intro agree_onI[where k = k and x = x]) simp_all
    ultimately show ?thesis by blast
  qed
qed

lemma agree_loop:
  assumes "agree_on X st st'" and "\<forall>l \<in> set ls. process_name_of l \<noteq> Some X"
  shows "\<exists>t t'. anthropic_loop pf st ls = Inr t \<and> anthropic_loop pf st' ls = Inr t'
                \<and> agree_on X t t'"
  using assms
proof (induction ls arbitrary: st st')
  case Nil
  then show ?case by simp
next
  case (Cons l ls)
  from Cons.prems obtain t t' where
    t: "anthropic_line pf st l = Inr t" "anthropic_line pf st' l = Inr t'" "agree_on X t t'"
    using agree_step[of X st st' l pf] by auto
  from Cons.prems have "\<forall>l \<in> set ls. process_name_of l \<noteq> Some X" by simp
  from Cons.IH[OF t(3) this] show ?case using t by simp
qed

lemma stray_score_append: "stray_score xs \<Longrightarrow> stray_score (xs @ ys)"
  by (induction xs) (auto split: if_splits)

lemma loop_stray_score:
  assumes "stray_score ls" and "current_process st = None"
  shows "anthropic_loop pf st ls = Inl KeyError"
  using assms
proof (induction ls arbitrary: st)
  case Nil
  then show ?case by simp
next
  case (Cons l ls)
  show ?case
  proof (cases "startswith l ''Threat Score:''")
    case True
    then show ?thesis using threat_score_line[OF True] Cons.prems
      by (auto simp: anthropic_line_def set_threat_score_def)
  next
    case False
    from Cons.prems(1) False have np: "\<not> startswith l ''Process Name:''" and rest: "stray_score ls"
      by (auto split: if_splits)
    show ?thesis
    proof (cases "startswith l ''Description:''")
      case True
      then obtain v where "anthropic_line pf st l = Inr (st\<lparr>parts := parts st @ [v]\<rparr>)"
        using step_description by blast
      then show ?thesis using Cons.IH[OF rest, of "st\<lparr>parts := parts st @ [v]\<rparr>"] Cons.prems(2)
        by simp
    next
      case d: False
      then have "anthropic_line pf st l = Inr st"
        using np False Cons.prems(2) by (simp add: anthropic_line_def)
      then show ?thesis using Cons.IH[OF rest Cons.prems(2)] by simp
    qed
  qed
qed

lemma loop_opened:
  assumes "opened st"
  shows "\<exists>t. anthropic_loop pf st ls = Inr t \<and> opened t"
  using assms
proof (induction ls arbitrary: st)
  case Nil
  then show ?case by simp
next
  case (Cons l ls)
  then obtain t where t: "anthropic_line pf st l = Inr t" "opened t"
    using step_opened by blast
  from Cons.IH[OF t(2)] show ?case using t(1) by simp
qed

lemma loop_no_stray_score:
  assumes "\<not> stray_score ls" and "current_process st = None"
  shows "\<exists>t. anthropic_loop pf st ls = Inr t \<and> (current_process t = None \<or> opened t)"
  using assms
proof (induction ls arbitrary: st)
  case Nil
  then show ?case by simp
next
  case (Cons l ls)
  show ?case
  proof (cases "startswith l ''Process Name:''")
    case True
    then obtain n where n: "process_name_of l = Some n" using process_name_line by blast
    have "flush st = Inr (analysis st)" using Cons.prems(2) by (simp add: flush_def)
    from step_process_name[OF n this, of pf]
    obtain t where t: "anthropic_line pf st l = Inr t" "opened t"
      by (simp add: opened_def)
    from loop_opened[OF t(2), of pf ls] show ?thesis using t(1) by auto
  next
    case np: False
    show ?thesis
    proof (cases "startswith l ''Description:''")
      case True
      then obtain v where v: "anthropic_line pf st l = Inr (st\<lparr>parts := parts st @ [v]\<rparr>)"
        using step_description by blast
      from Cons.prems(1) np True have "\<not> stray_score ls" by simp
      from Cons.IH[OF this, of "st\<lparr>parts := parts st @ [v]\<rparr>"] Cons.prems(2) v
      show ?thesis by simp
    next
      case nd: False
      with Cons.prems(1) np have ns: "\<not> startswith l ''Threat Score:''" and rest: "\<not> stray_score ls"
        by (auto split: if_splits)
      have "anthropic_line pf st l = Inr st"
        using np nd ns Cons.prems(2) by (simp add: anthropic_line_def)
      then show ?thesis using Cons.IH[OF rest Cons.prems(2)] by simp
    qed
  qed
qed

lemma flush_reached:
  assumes "current_process st = None \<or> opened st"
  shows "\<exists>a. flush st = Inr a"
  using assms flush_opened[of st] by (auto simp: flush_def)


section \<open>Lemmas on the report\<close>







section \<open>Lemmas on the manual extraction\<close>

lemma blank_unlabelled:
  assumes "strip l = []"
  shows "unlabelled l \<and> CHR '':'' \<notin> set l"
proof -
  from assms have sp: "\<forall>c \<in> set l. is_space c" by (simp add: strip_Nil_iff)
  have "\<not> startswith l (c # p)" if "\<not> is_space c" for c p
    using sp that by (cases l) auto
  moreover have "\<not> is_space CHR ''P''" "\<not> is_space CHR ''D''" "\<not> is_space CHR ''T''"
    by (simp_all add: is_space_def)
  ultimately have "unlabelled l" by (simp add: unlabelled_def)
  moreover have "CHR '':'' \<notin> set l" using sp not_space_colon by blast
  ultimately show ?thesis by simp
qed

lemma simple_line_well_formed: "simple_line b \<Longrightarrow> well_formed_line b"
  by (cases b) (simp_all add: blank_unlabelled)

lemma simple_block_well_formed: "simple_block b \<Longrightarrow> well_formed_block b"
proof -
  assume s: "simple_block b"
  obtain r body where b: "b = (r, body)" by (cases b)
  with s have "list_all simple_line body" by simp
  then have "list_all well_formed_line body"
    by (induction body) (simp_all add: simple_line_well_formed)
  with s b show ?thesis by simp
qed

lemma ollama_loop_append:
  "ollama_loop pf st (xs @ ys) =
   (case ollama_loop pf st xs of Inl e \<Rightarrow> Inl e | Inr st' \<Rightarrow> ollama_loop pf st' ys)"
  by (induction xs arbitrary: st) (auto split: sum.splits)

lemma ollama_process_name:
  assumes "CHR '':'' \<notin> set r"
  shows "ollama_line pf (a, cp) (''Process Name:'' @ r) = Inr (a(strip r \<mapsto> empty_entry), Some (strip r))"
proof -
  have "strip ''Process Name'' = ''Process Name''"
    by (simp add: strip_def is_space_def)
  then show ?thesis
    by (simp add: ollama_line_def after_colon_def before_colon_def Let_def)
qed

lemma ollama_description:
  assumes "a k = Some e" and "k \<noteq> []"
  shows "ollama_line pf (a, Some k) (line_of (DescriptionLine v)) =
         Inr (a(k \<mapsto> e\<lparr>description := Some (strip v)\<rparr>), Some k)"
proof -
  have "strip ''Description'' = ''Description''"
    by (simp add: strip_def is_space_def)
  then show ?thesis using assms
    by (simp add: ollama_line_def after_colon_def before_colon_def set_description_def Let_def)
qed

lemma ollama_threat_score:
  assumes "a k = Some e" and "k \<noteq> []"
  shows "ollama_line pf (a, Some k) (line_of (ThreatScoreLine v)) =
         Inr (a(k \<mapsto> e\<lparr>threat_score := Some (score_of pf (strip v))\<rparr>), Some k)"
proof -
  have "strip ''Threat Score'' = ''Threat Score''"
    by (simp add: strip_def is_space_def)
  then show ?thesis using assms
    by (simp add: ollama_line_def after_colon_def before_colon_def set_threat_score_def Let_def)
qed

lemma ollama_blank:
  assumes "strip l = []"
  shows "ollama_line pf (a, cp) (line_of (OtherLine l)) = Inr (a, cp)"
  using blank_unlabelled[OF assms] by (simp add: ollama_line_def)

lemma ollama_body:
  assumes "list_all simple_line body" and "a k = Some e" and "k \<noteq> []"
  shows "ollama_loop pf (a, Some k) (map line_of body) =
         Inr (a(k \<mapsto> e\<lparr>description := last_description (description e) body,
                       threat_score := spec_score pf (threat_score e) body\<rparr>), Some k)"
  using assms
proof (induction body arbitrary: a e)
  case Nil
  then show ?case by (simp add: map_upd_triv)
next
  case (Cons b body)
  show ?case
  proof (cases b)
    case (DescriptionLine v)
    let ?e = "e\<lparr>description := Some (strip v)\<rparr>"
    have ih: "ollama_loop pf (a(k \<mapsto> ?e), Some k) (map line_of body) =
         Inr ((a(k \<mapsto> ?e))(k \<mapsto> ?e\<lparr>description := last_description (description ?e) body,
                       threat_score := spec_score pf (threat_score ?e) body\<rparr>), Some k)"
      using Cons.prems by (intro Cons.IH) simp_all
    show ?thesis
      using DescriptionLine ollama_description[of a k e pf v] Cons.prems(2,3) ih
      by (simp add: fun_eq_iff del: line_of.simps)
  next
    case (ThreatScoreLine v)
    let ?e = "e\<lparr>threat_score := Some (score_of pf (strip v))\<rparr>"
    have ih: "ollama_loop pf (a(k \<mapsto> ?e), Some k) (map line_of body) =
         Inr ((a(k \<mapsto> ?e))(k \<mapsto> ?e\<lparr>description := last_description (description ?e) body,
                       threat_score := spec_score pf (threat_score ?e) body\<rparr>), Some k)"
      using Cons.prems by (intro Cons.IH) simp_all
    show ?thesis
      using ThreatScoreLine ollama_threat_score[of a k e pf v] Cons.prems(2,3) ih
      by (simp add: fun_eq_iff score_of_def del: line_of.simps)
  next
    case (OtherLine l)
    with Cons.prems have "strip l = []" by simp
    from ollama_blank[OF this, of pf a "Some k"] OtherLine Cons.IH[of a e] Cons.prems
    show ?thesis by (simp del: line_of.simps)
  qed
qed

lemma one_description:
  assumes "list_all simple_line body"
  shows "length (filter is_description body) = 0 \<Longrightarrow>
           concat (map spec_part body) = [] \<and> last_description d body = d"
    and "length (filter is_description body) = 1 \<Longrightarrow>
           (\<exists>v. concat (map spec_part body) = [v] \<and> last_description d body = Some v)"
  using assms
proof (induction body arbitrary: d)
  case Nil
  { case 1 then show ?case by simp }
  { case 2 then show ?case by simp }
next
  case (Cons b body)
  { case 1
    then show ?case using Cons.IH(1)[of d] by (cases b) simp_all }
  { case 2
    then show ?case
    proof (cases b)
      case (DescriptionLine v)
      with 2 Cons.IH(1)[of "Some (strip v)"] show ?thesis by simp
    next
      case (ThreatScoreLine v)
      with 2 Cons.IH(2)[of d] show ?thesis by simp
    next
      case (OtherLine l)
      with 2 Cons.IH(2)[of d] show ?thesis by simp
    qed }
qed

lemma simple_block_entry:
  assumes "simple_block (r, body)"
  shows "empty_entry\<lparr>description := last_description (description empty_entry) body,
                     threat_score := spec_score pf (threat_score empty_entry) body\<rparr>
         = spec_entry pf body"
proof -
  from assms have "list_all simple_line body" "length (filter is_description body) = 1"
    by simp_all
  from one_description(2)[OF this, of None] obtain v where
    "concat (map spec_part body) = [v]" "last_description None body = Some v" by blast
  then show ?thesis by (simp add: spec_entry_def spec_description_def empty_entry_def)
qed

lemma ollama_blocks:
  assumes "list_all simple_block blocks"
  shows "\<exists>cp'. ollama_loop pf (a, cp) (pattern_lines blocks) = Inr (spec_result pf a blocks, cp')"
  using assms
proof (induction blocks arbitrary: a cp)
  case Nil
  then show ?case by (simp add: pattern_lines_def)
next
  case (Cons b blocks)
  obtain r body where b: "b = (r, body)" by (cases b)
  with Cons.prems have sb: "simple_block (r, body)" and r: "CHR '':'' \<notin> set r" "strip r \<noteq> []"
    and body: "list_all simple_line body" and rest: "list_all simple_block blocks"
    by simp_all
  let ?a = "a(strip r \<mapsto> empty_entry)"
  have first: "ollama_line pf (a, cp) (''Process Name:'' @ r) = Inr (?a, Some (strip r))"
    using r(1) by (rule ollama_process_name)
  have "ollama_loop pf (?a, Some (strip r)) (map line_of body) =
         Inr (?a(strip r \<mapsto> empty_entry\<lparr>description := last_description (description empty_entry) body,
                       threat_score := spec_score pf (threat_score empty_entry) body\<rparr>), Some (strip r))"
    using body r(2) by (intro ollama_body) simp_all
  then have "ollama_loop pf (?a, Some (strip r)) (map line_of body) =
         Inr (a(strip r \<mapsto> spec_entry pf body), Some (strip r))"
    unfolding simple_block_entry[OF sb] by simp
  with first have block: "ollama_loop pf (a, cp) (block_lines (r, body)) =
         Inr (a(strip r \<mapsto> spec_entry pf body), Some (strip r))"
    unfolding block_lines.simps ollama_loop.simps by simp
  from Cons.IH[OF rest, of "a(strip r \<mapsto> spec_entry pf body)" "Some (strip r)"]
  obtain cp' where "ollama_loop pf (a(strip r \<mapsto> spec_entry pf body), Some (strip r)) (pattern_lines blocks)
        = Inr (spec_result pf (a(strip r \<mapsto> spec_entry pf body)) blocks, cp')"
    by blast
  with block b show ?case
    by (simp add: pattern_lines_def ollama_loop_append del: block_lines.simps)
qed

lemma fallback_pattern:
  assumes "split_lines content = pattern_lines blocks" and "list_all simple_block blocks"
  shows "ollama_fallback pf content = Inr (spec_result pf Map.empty blocks)"
  using ollama_blocks[OF assms(2), of pf Map.empty None] assms(1)
  by (auto simp: ollama_fallback_def)


section \<open>Lemmas on a repeated process name\<close>

text \<open>
  The entry of \<open>X\<close> is decided by the last \<open>Process Name:\<close> line for \<open>X\<close> and the lines
  after it, in both free-text functions, unless a score line comes before the first
  name line of the payload: then the mapping is empty.
\<close>

lemma last_name_line_decides_entry:
  assumes "split_lines payload = pre @ l # post"
    and "process_name_of l = Some X"
    and "Some X \<notin> set (map process_name_of post)"
  shows "\<exists>e. entry_of (analyze_processes_anthropic pf
                  (AnthropicMessage [TextBlock (join_lines (l # post))])) X = Some e
             \<and> entry_of (analyze_processes_openai pf
                  (OpenAIMessage (Some (join_lines (l # post))))) X = Some e
             \<and> entry_of (analyze_processes_anthropic pf (AnthropicMessage [TextBlock payload])) X
               = (if stray_score (split_lines payload) then None else Some e)
             \<and> entry_of (analyze_processes_openai pf (OpenAIMessage (Some payload))) X
               = (if stray_score (split_lines payload) then None else Some e)"
proof -
  let ?run = "\<lambda>text. case anthropic_parse pf text of Inl e \<Rightarrow> Inr Map.empty | Inr a \<Rightarrow> Inr a"
  have later: "\<forall>l' \<in> set post. process_name_of l' \<noteq> Some X"
    using assms(3) by (metis image_eqI set_map)
  have "\<forall>l' \<in> set (split_lines payload). CHR 0x0A \<notin> set l'"
    by (auto simp: split_lines_def dest: split_on_pieces_sep_free)
  then have "\<forall>l' \<in> set (l # post). CHR 0x0A \<notin> set l'"
    unfolding assms(1) by simp
  then have "split_on CHR 0x0A (join_lines (l # post)) = l # post"
    by (intro split_on_join_lines) simp_all
  then have suffix_loop: "anthropic_parse pf (join_lines (l # post))
      = (case anthropic_loop pf init_pstate (l # post) of Inl e \<Rightarrow> Inl e | Inr st \<Rightarrow> flush st)"
    by (simp add: anthropic_parse_def split_lines_def)
  let ?t2 = "\<lparr>analysis = Map.empty(X \<mapsto> empty_entry), current_process = Some X, parts = []\<rparr>"
  have first2: "anthropic_line pf init_pstate l = Inr ?t2"
    using step_process_name[OF assms(2) flush_init, of pf] .
  have suffix: "\<exists>u2 m2 x. anthropic_loop pf ?t2 post = Inr u2 \<and> flush u2 = Inr m2 \<and> m2 X = Some x
      \<and> (\<forall>t1. agree_on X t1 ?t2 \<longrightarrow>
            (\<exists>u1 m1. anthropic_loop pf t1 post = Inr u1 \<and> flush u1 = Inr m1 \<and> m1 X = Some x))"
  proof -
    have self: "agree_on X ?t2 ?t2"
      by (intro agree_onI[where k = X and x = empty_entry]) simp_all
    from agree_loop[OF self later, of pf] obtain u2 where u2: "anthropic_loop pf ?t2 post = Inr u2"
      by auto
    have "\<exists>u1 m1 m2 x. anthropic_loop pf t1 post = Inr u1 \<and> flush u1 = Inr m1
            \<and> flush u2 = Inr m2 \<and> m1 X = Some x \<and> m2 X = Some x"
      if "agree_on X t1 ?t2" for t1
    proof -
      from agree_loop[OF that later, of pf] u2 obtain u1 where
        u1: "anthropic_loop pf t1 post = Inr u1" "agree_on X u1 u2" by auto
      from agree_flush[OF u1(2)] u1(1) show ?thesis by blast
    qed
    note rel = this
    from rel[OF self] u2 obtain m2 x where m2: "flush u2 = Inr m2" "m2 X = Some x" by auto
    have "\<exists>u1 m1. anthropic_loop pf t1 post = Inr u1 \<and> flush u1 = Inr m1 \<and> m1 X = Some x"
      if "agree_on X t1 ?t2" for t1
      using rel[OF that] m2 by auto
    with u2 m2 show ?thesis by blast
  qed
  then obtain u2 m2 x where u2: "anthropic_loop pf ?t2 post = Inr u2" "flush u2 = Inr m2"
    "m2 X = Some x"
    and others: "\<And>t1. agree_on X t1 ?t2 \<Longrightarrow>
            \<exists>u1 m1. anthropic_loop pf t1 post = Inr u1 \<and> flush u1 = Inr m1 \<and> m1 X = Some x"
    by blast
  have cut: "entry_of (?run (join_lines (l # post))) X = Some x"
    using suffix_loop first2 u2 by (simp add: entry_of_def)
  have whole: "entry_of (?run payload) X
               = (if stray_score (split_lines payload) then None else Some x)"
  proof (cases "stray_score (split_lines payload)")
    case True
    then have "anthropic_loop pf init_pstate (split_lines payload) = Inl KeyError"
      by (intro loop_stray_score) (simp_all add: init_pstate_def)
    with True show ?thesis by (simp add: anthropic_parse_def entry_of_def)
  next
    case False
    then have "\<not> stray_score pre"
      using stray_score_append[of pre "l # post"] assms(1) by auto
    then obtain st1 where st1: "anthropic_loop pf init_pstate pre = Inr st1"
      "current_process st1 = None \<or> opened st1"
      using loop_no_stray_score[of pre init_pstate pf] by (auto simp: init_pstate_def)
    from flush_reached[OF st1(2)] obtain a1 where a1: "flush st1 = Inr a1" by blast
    let ?t1 = "\<lparr>analysis = a1(X \<mapsto> empty_entry), current_process = Some X, parts = []\<rparr>"
    have first1: "anthropic_line pf st1 l = Inr ?t1"
      using step_process_name[OF assms(2) a1, of pf] .
    have "agree_on X ?t1 ?t2"
      by (intro agree_onI[where k = X and x = empty_entry]) simp_all
    from others[OF this] obtain u1 m1 where
      "anthropic_loop pf ?t1 post = Inr u1" "flush u1 = Inr m1" "m1 X = Some x" by blast
    then have "anthropic_parse pf payload = Inr m1"
      using st1(1) first1 by (simp add: anthropic_parse_def assms(1) loop_append)
    with False \<open>m1 X = Some x\<close> show ?thesis by (simp add: entry_of_def)
  qed
  show ?thesis
    using cut whole by (simp add: analyze_anthropic_text analyze_openai_text)
qed

section \<open>C1: the description of each block of the pattern\<close>

text \<open>
  C1, as amended. For every payload whose lines are blocks of the pattern, with process
  names that have no further colon and are not blank, and scores that have no further
  colon, the free-text normalizer of variants A and B returns a mapping whose keys are
  the trimmed names of the blocks, and where the entry of a name has as description the
  \<open>Description:\<close> values and the non-blank continuation lines of the last block of that
  name, trimmed and joined by spaces.
\<close>

theorem pattern_descriptions:
  assumes "split_lines payload = pattern_lines blocks"
    and "list_all well_formed_block blocks"
  shows "\<exists>m. analyze_processes_anthropic pf (AnthropicMessage [TextBlock payload]) = Inr m
           \<and> analyze_processes_openai pf (OpenAIMessage (Some payload)) = Inr m
           \<and> dom m = (\<lambda>b. strip (fst b)) ` set blocks
           \<and> (\<forall>pre r body post.
                 blocks = pre @ (r, body) # post
                 \<and> strip r \<notin> (\<lambda>b. strip (fst b)) ` set post
                 \<longrightarrow> (\<exists>e. m (strip r) = Some e
                          \<and> description e = Some (spec_description body)))"
proof -
  let ?m = "spec_result pf Map.empty blocks"
  have p: "anthropic_parse pf payload = Inr ?m"
    using assms by (rule parse_pattern)
  have "\<exists>e. ?m (strip r) = Some e \<and> description e = Some (spec_description body)"
    if "blocks = pre @ (r, body) # post" "strip r \<notin> (\<lambda>b. strip (fst b)) ` set post"
    for pre r body post
    using that spec_result_last[of r post pf Map.empty pre body] by (simp add: spec_entry_def)
  then show ?thesis
    using p by (auto simp: analyze_anthropic_text analyze_openai_text dom_spec_result)
qed

theorem pattern_descriptions_witness:
  "split_lines sample_payload = pattern_lines sample_blocks
   \<and> list_all well_formed_block sample_blocks
   \<and> map_option description
        (entry_of (analyze_processes_openai decimal_float (OpenAIMessage (Some sample_payload)))
           ''svchost.exe'')
     = Some (Some ''Hosts Windows services. Often many instances.'')"
proof -
  let ?body = "[DescriptionLine '' Hosts Windows services.'', OtherLine ''Often many instances.'',
                ThreatScoreLine '' 1'']"
  let ?post = "[('' notepad.exe '', [DescriptionLine '' Text editor.'', ThreatScoreLine '' 0''])]"
  have h1: "split_lines sample_payload = pattern_lines sample_blocks"
    by code_simp
  have h2: "list_all well_formed_block sample_blocks"
    by code_simp
  obtain m where m: "analyze_processes_openai decimal_float (OpenAIMessage (Some sample_payload)) = Inr m"
    and d: "\<forall>pre r body post.
                 sample_blocks = pre @ (r, body) # post
                 \<and> strip r \<notin> (\<lambda>b. strip (fst b)) ` set post
                 \<longrightarrow> (\<exists>e. m (strip r) = Some e
                          \<and> description e = Some (spec_description body))"
    using pattern_descriptions[OF h1 h2, of decimal_float] by blast
  have "sample_blocks = [] @ ('' svchost.exe'', ?body) # ?post
        \<and> strip '' svchost.exe'' \<notin> (\<lambda>b. strip (fst b)) ` set ?post"
    by code_simp
  from d[rule_format, OF this]
  obtain e where "m (strip '' svchost.exe'') = Some e" "description e = Some (spec_description ?body)"
    by blast
  moreover have "strip '' svchost.exe'' = ''svchost.exe''"
    by code_simp
  moreover have "spec_description ?body = ''Hosts Windows services. Often many instances.''"
    by code_simp
  ultimately have "map_option description (m ''svchost.exe'')
                   = Some (Some ''Hosts Windows services. Often many instances.'')"
    by simp
  then show ?thesis using h1 h2 m by (simp add: entry_of_def)
qed

text \<open>
  C1 as stated fails for a blank process name: the entry is made, and the score stored,
  but \<open>if current_process:\<close> is false for the empty string and no description is stored.
\<close>

theorem blank_name_counterexample:
  "split_lines ''Process Name:\<newline>Description: d\<newline>Threat Score: 1''
     = pattern_lines [('''', [DescriptionLine '' d'', ThreatScoreLine '' 1''])]
   \<and> spec_description [DescriptionLine '' d'', ThreatScoreLine '' 1''] = ''d''
   \<and> entry_of (analyze_processes_openai decimal_float
         (OpenAIMessage (Some ''Process Name:\<newline>Description: d\<newline>Threat Score: 1''))) (strip '''')
     = Some \<lparr>description = None, threat_score = Some (Num (Finite 1))\<rparr>
   \<and> entry_of (analyze_processes_anthropic decimal_float
         (AnthropicMessage [TextBlock ''Process Name:\<newline>Description: d\<newline>Threat Score: 1''])) (strip '''')
     = Some \<lparr>description = None, threat_score = Some (Num (Finite 1))\<rparr>"
  by code_simp

section \<open>C2: the Ollama function\<close>

text \<open>
  C2, as amended. The Ollama function first decodes the whole payload as JSON, and
  returns a decoded object as it is. When the payload is not JSON, it falls back to its
  own extraction, line by line: a line is split at its first colon, a \<open>Description\<close> line
  replaces the description, and a line with no known label is dropped. On a payload of
  the three-line pattern (names and scores with no further colon, names not blank, one
  \<open>Description:\<close> line per process, blank lines allowed) it returns the mapping that the
  free-text normalizer of variants A and B returns.
\<close>

theorem ollama_json_then_own_extraction:
  "(loads text = Some (PDict d) \<longrightarrow>
      analyze_processes_ollama pf loads (OllamaResponse text) = Inr (PDict d))
   \<and> (loads text = None \<longrightarrow>
        analyze_processes_ollama pf loads (OllamaResponse text)
        = Inr (case ollama_fallback pf text of
                 Inr a \<Rightarrow> py_of_analysis a | Inl e \<Rightarrow> PDict Map.empty))
   \<and> (loads text = None \<and> split_lines text = pattern_lines blocks
        \<and> list_all simple_block blocks \<longrightarrow>
        analyze_processes_ollama pf loads (OllamaResponse text)
        = map_sum id py_of_analysis (analyze_processes_openai pf (OpenAIMessage (Some text)))
        \<and> analyze_processes_ollama pf loads (OllamaResponse text)
          = map_sum id py_of_analysis
              (analyze_processes_anthropic pf (AnthropicMessage [TextBlock text])))"
proof -
  have json: "analyze_processes_ollama pf loads (OllamaResponse text) = Inr (PDict d)"
    if "loads text = Some (PDict d)"
    using that by (simp add: analyze_processes_ollama_def)
  have own: "analyze_processes_ollama pf loads (OllamaResponse text)
        = Inr (case ollama_fallback pf text of
                 Inr a \<Rightarrow> py_of_analysis a | Inl e \<Rightarrow> PDict Map.empty)"
    if "loads text = None"
    using that
    by (cases "ollama_fallback pf text") (simp_all add: analyze_processes_ollama_def py_of_analysis_def)
  have same: "analyze_processes_ollama pf loads (OllamaResponse text)
        = map_sum id py_of_analysis (analyze_processes_openai pf (OpenAIMessage (Some text)))
        \<and> analyze_processes_ollama pf loads (OllamaResponse text)
          = map_sum id py_of_analysis
              (analyze_processes_anthropic pf (AnthropicMessage [TextBlock text]))"
    if n: "loads text = None" and l: "split_lines text = pattern_lines blocks"
      and b: "list_all simple_block blocks"
  proof -
    from b have wf: "list_all well_formed_block blocks"
      by (induction blocks) (simp_all add: simple_block_well_formed del: simple_block.simps well_formed_block.simps)
    have "ollama_fallback pf text = Inr (spec_result pf Map.empty blocks)"
      using l b by (rule fallback_pattern)
    moreover have "anthropic_parse pf text = Inr (spec_result pf Map.empty blocks)"
      using l wf by (rule parse_pattern)
    ultimately show ?thesis
      using own[OF n] by (simp add: analyze_anthropic_text analyze_openai_text)
  qed
  from json own same show ?thesis by blast
qed

theorem ollama_json_then_own_extraction_witness:
  "sample_loads simple_payload = None
   \<and> split_lines simple_payload = pattern_lines simple_blocks
   \<and> list_all simple_block simple_blocks
   \<and> analyze_processes_ollama decimal_float sample_loads (OllamaResponse simple_payload)
     = map_sum id py_of_analysis
         (analyze_processes_openai decimal_float (OpenAIMessage (Some simple_payload)))
   \<and> description_in
        (analyze_processes_ollama decimal_float sample_loads (OllamaResponse simple_payload))
        ''b.exe''
     = Some ''Text editor.''
   \<and> description_in
        (analyze_processes_ollama decimal_float sample_loads (OllamaResponse null_score_json))
        ''a.exe''
     = Some ''x''"
proof -
  let ?d = "[''a.exe'' \<mapsto> PDict [''description'' \<mapsto> PStr ''x'', ''threat_score'' \<mapsto> PNone]]"
  have h1: "sample_loads simple_payload = None"
    by code_simp
  have h2: "split_lines simple_payload = pattern_lines simple_blocks"
    by code_simp
  have h3: "list_all simple_block simple_blocks"
    by code_simp
  have h4: "description_in
        (analyze_processes_ollama decimal_float sample_loads (OllamaResponse simple_payload))
        ''b.exe''
     = Some ''Text editor.''"
    by code_simp
  have h5: "sample_loads null_score_json = Some (PDict ?d)"
    by (simp add: sample_loads_def)
  from ollama_json_then_own_extraction[of sample_loads simple_payload _ decimal_float simple_blocks]
    h1 h2 h3
  have same: "analyze_processes_ollama decimal_float sample_loads (OllamaResponse simple_payload)
     = map_sum id py_of_analysis
         (analyze_processes_openai decimal_float (OpenAIMessage (Some simple_payload)))"
    by blast
  from ollama_json_then_own_extraction[of sample_loads null_score_json ?d decimal_float] h5
  have "analyze_processes_ollama decimal_float sample_loads (OllamaResponse null_score_json)
        = Inr (PDict ?d)"
    by blast
  then have json: "description_in
        (analyze_processes_ollama decimal_float sample_loads (OllamaResponse null_score_json))
        ''a.exe'' = Some ''x''"
    by (simp add: description_in_def dict_get_def)
  from h1 h2 h3 h4 same json show ?thesis by (simp only: simp_thms)
qed

text \<open>
  C2 as stated fails on a payload with a continuation line: the extraction of the Ollama
  function is not the algorithm of variants A and B, and drops the line the other joins
  to the description.
\<close>

theorem ollama_continuation_counterexample:
  "sample_loads ''Process Name: a.exe\<newline>Description: Hosts services\<newline>for Windows.'' = None
   \<and> description_in
        (analyze_processes_ollama decimal_float sample_loads
           (OllamaResponse ''Process Name: a.exe\<newline>Description: Hosts services\<newline>for Windows.''))
        ''a.exe''
     = Some ''Hosts services''
   \<and> description_in
        (map_sum id py_of_analysis
           (analyze_processes_openai decimal_float
              (OpenAIMessage (Some ''Process Name: a.exe\<newline>Description: Hosts services\<newline>for Windows.''))))
        ''a.exe''
     = Some ''Hosts services for Windows.''"
  by code_simp

section \<open>C3: a failed Anthropic request\<close>

text \<open>
  C3. The claim: no variant lets an exception past the normalization step, and a failed
  backend call gives an empty result. The handlers of the OpenAI and Ollama functions do
  so. The handler of \<open>analyze_processes_anthropic\<close> reads \<open>response\<close>, which is unbound when
  the request itself raised: the function raises \<open>UnboundLocalError\<close>, and \<open>main\<close> ends in its
  own handler with no report.
\<close>

theorem anthropic_request_failure_escapes:
  "analyze_processes_anthropic pf AnthropicRaises = Inl UnboundLocalError
   \<and> main_run pf loads processes (UseAnthropic AnthropicRaises) = CriticalError UnboundLocalError
   \<and> analyze_processes_openai pf OpenAIRaises = Inr Map.empty
   \<and> analyze_processes_ollama pf loads OllamaRaises = Inr (PDict Map.empty)"
  by (simp add: analyze_processes_anthropic_def analyze_processes_openai_def
      analyze_processes_ollama_def main_run_def)

section \<open>C4: a repeated process name\<close>

text \<open>
  C4. The claim: when a payload has the line \<open>Process Name: X\<close> twice, the entry returned
  for \<open>X\<close> is built from the lines after the second one. Both free-text functions do so
  when the payload starts with a name line: the entry of \<open>a.exe\<close> has the description
  \<open>new\<close> of the second block, and neither the description \<open>old\<close> nor the score 9 of the
  first, and it is the entry of the second block parsed alone. With a score line before
  the first name line, the \<open>KeyError\<close> of C5 makes both functions return the empty mapping:
  no entry for \<open>a.exe\<close> is returned at all.
\<close>

theorem repeated_name_after_stray_score:
  "entry_of (analyze_processes_anthropic decimal_float (AnthropicMessage [TextBlock
      ''Threat Score: 1\<newline>Process Name: a.exe\<newline>Description: old\<newline>Threat Score: 9\<newline>Process Name: a.exe\<newline>Description: new'']))
      ''a.exe'' = None
   \<and> entry_of (analyze_processes_openai decimal_float (OpenAIMessage (Some
      ''Threat Score: 1\<newline>Process Name: a.exe\<newline>Description: old\<newline>Threat Score: 9\<newline>Process Name: a.exe\<newline>Description: new'')))
      ''a.exe'' = None
   \<and> entry_of (analyze_processes_anthropic decimal_float (AnthropicMessage [TextBlock
      ''Process Name: a.exe\<newline>Description: old\<newline>Threat Score: 9\<newline>Process Name: a.exe\<newline>Description: new'']))
      ''a.exe'' = Some \<lparr>description = Some ''new'', threat_score = None\<rparr>
   \<and> entry_of (analyze_processes_openai decimal_float (OpenAIMessage (Some
      ''Process Name: a.exe\<newline>Description: old\<newline>Threat Score: 9\<newline>Process Name: a.exe\<newline>Description: new'')))
      ''a.exe'' = Some \<lparr>description = Some ''new'', threat_score = None\<rparr>
   \<and> entry_of (analyze_processes_anthropic decimal_float (AnthropicMessage [TextBlock
      ''Process Name: a.exe\<newline>Description: new''])) ''a.exe''
     = Some \<lparr>description = Some ''new'', threat_score = None\<rparr>
   \<and> entry_of (analyze_processes_openai decimal_float (OpenAIMessage (Some
      ''Process Name: a.exe\<newline>Description: new''))) ''a.exe''
     = Some \<lparr>description = Some ''new'', threat_score = None\<rparr>"
  by code_simp

section \<open>C5: a score line before the first process name\<close>

text \<open>
  C5. The claim: lines before the first \<open>Process Name:\<close> line are ignored. A
  \<open>Threat Score:\<close> line there is not: with no process open, \<open>analysis[None]\<close> raises
  \<open>KeyError\<close>, the handler returns the empty mapping, and the blocks that follow are
  lost. Without that line the block is parsed; the manual extraction of the Ollama
  function, which tests \<open>current_process\<close> first, keeps the block.
\<close>

theorem stray_score_loses_later_blocks:
  "raised (anthropic_parse decimal_float ''Threat Score: 5\<newline>Process Name: a.exe\<newline>Description: d'')
     = Some KeyError
   \<and> entry_of (analyze_processes_anthropic decimal_float
         (AnthropicMessage [TextBlock ''Threat Score: 5\<newline>Process Name: a.exe\<newline>Description: d'']))
         ''a.exe'' = None
   \<and> entry_of (analyze_processes_openai decimal_float
         (OpenAIMessage (Some ''Threat Score: 5\<newline>Process Name: a.exe\<newline>Description: d'')))
         ''a.exe'' = None
   \<and> entry_of (analyze_processes_openai decimal_float
         (OpenAIMessage (Some ''Process Name: a.exe\<newline>Description: d'')))
         ''a.exe'' = Some \<lparr>description = Some ''d'', threat_score = None\<rparr>
   \<and> entry_of (ollama_fallback decimal_float ''Threat Score: 5\<newline>Process Name: a.exe\<newline>Description: d'')
         ''a.exe'' = Some \<lparr>description = Some ''d'', threat_score = None\<rparr>"
  by code_simp

section \<open>C6: the text a score is parsed from\<close>

text \<open>
  C6, as amended. For a \<open>Threat Score:\<close> line met while a process is open, the
  normalizer of variants A and B parses as a float the trimmed text between the first
  colon and the next colon (or the end of the line); the manual extraction of variant C,
  when the open name is not empty, parses the trimmed text after the first colon. When
  that text is not a valid float, the string \<open>'N/A'\<close> is stored as the score of the open
  process, and nothing is raised.
\<close>

theorem threat_score_line_stores_float_or_sentinel:
  assumes "current_process st = Some k" and "analysis st k = Some e"
  shows "anthropic_line pf st (''Threat Score:'' @ v)
           = Inr (st\<lparr>analysis := (analysis st)(k \<mapsto> e\<lparr>threat_score :=
                   Some (case pf (strip (takeWhile (\<lambda>c. c \<noteq> CHR '':'') v)) of
                           Some x \<Rightarrow> Num x | None \<Rightarrow> NA)\<rparr>)\<rparr>)
         \<and> openai_line pf st (''Threat Score:'' @ v)
           = Inr (st\<lparr>analysis := (analysis st)(k \<mapsto> e\<lparr>threat_score :=
                   Some (case pf (strip (takeWhile (\<lambda>c. c \<noteq> CHR '':'') v)) of
                           Some x \<Rightarrow> Num x | None \<Rightarrow> NA)\<rparr>)\<rparr>)
         \<and> (k \<noteq> [] \<longrightarrow>
              ollama_line pf (analysis st, Some k) (''Threat Score:'' @ v)
              = Inr ((analysis st)(k \<mapsto> e\<lparr>threat_score :=
                       Some (case pf (strip v) of Some x \<Rightarrow> Num x | None \<Rightarrow> NA)\<rparr>), Some k))"
proof -
  have key: "strip ''Threat Score'' = ''Threat Score''"
    by (simp add: strip_def is_space_def)
  have "ollama_line pf (analysis st, Some k) (''Threat Score:'' @ v)
        = Inr ((analysis st)(k \<mapsto> e\<lparr>threat_score := Some (score_of pf (strip v))\<rparr>), Some k)"
    if "k \<noteq> []"
    using that assms(2) key
    by (simp add: ollama_line_def after_colon_def before_colon_def set_threat_score_def)
  then show ?thesis
    using line_threat_score[OF assms, of pf v]
    by (simp add: openai_line_eq score_of_def)
qed

theorem threat_score_line_stores_float_or_sentinel_witness:
  "current_process open_state = Some ''a.exe''
   \<and> analysis open_state ''a.exe'' = Some empty_entry
   \<and> entry_of (map_sum id analysis (anthropic_line decimal_float open_state ''Threat Score: high''))
        ''a.exe''
     = Some \<lparr>description = None, threat_score = Some NA\<rparr>
   \<and> entry_of (map_sum id fst
        (ollama_line decimal_float (analysis open_state, Some ''a.exe'') ''Threat Score: 7.5''))
        ''a.exe''
     = Some \<lparr>description = None, threat_score = Some (Num (Finite (15 / 2)))\<rparr>"
proof -
  have h1: "current_process open_state = Some ''a.exe''"
    by (simp add: open_state_def)
  have h2: "analysis open_state ''a.exe'' = Some empty_entry"
    by (simp add: open_state_def)
  have h3: "decimal_float (strip (takeWhile (\<lambda>c. c \<noteq> CHR '':'') '' high'')) = None"
    by code_simp
  have h4: "decimal_float (strip '' 7.5'') = Some (Finite (15 / 2))"
    by code_simp
  have h5: "''a.exe'' \<noteq> []"
    by simp
  note inst = threat_score_line_stores_float_or_sentinel[OF h1 h2, of decimal_float]
  have "anthropic_line decimal_float open_state (''Threat Score:'' @ '' high'')
        = Inr (open_state\<lparr>analysis := (analysis open_state)(''a.exe'' \<mapsto>
                 empty_entry\<lparr>threat_score := Some NA\<rparr>)\<rparr>)"
    using inst[of "'' high''"] by (simp only: h3 option.case)
  then have a: "entry_of (map_sum id analysis
        (anthropic_line decimal_float open_state ''Threat Score: high'')) ''a.exe''
     = Some \<lparr>description = None, threat_score = Some NA\<rparr>"
    by (simp add: entry_of_def empty_entry_def)
  have "ollama_line decimal_float (analysis open_state, Some ''a.exe'') (''Threat Score:'' @ '' 7.5'')
        = Inr ((analysis open_state)(''a.exe'' \<mapsto>
                 empty_entry\<lparr>threat_score := Some (Num (Finite (15 / 2)))\<rparr>), Some ''a.exe'')"
    using inst[of "'' 7.5''"] h5 by (simp only: h4 option.case simp_thms)
  then have b: "entry_of (map_sum id fst
        (ollama_line decimal_float (analysis open_state, Some ''a.exe'') ''Threat Score: 7.5''))
        ''a.exe''
     = Some \<lparr>description = None, threat_score = Some (Num (Finite (15 / 2)))\<rparr>"
    by (simp add: entry_of_def empty_entry_def)
  from h1 h2 a b show ?thesis by (simp only: simp_thms)
qed

text \<open>
  C6 as stated fails for variants A and B on a score text with a colon: the text after
  the first colon of \<open>Threat Score: 5:30\<close> is not a float, yet \<open>5.0\<close> is stored, parsed from
  the text before the second colon.
\<close>

theorem score_with_colon_counterexample:
  "after_colon ''Threat Score: 5:30'' = Inr '' 5:30''
   \<and> decimal_float (strip '' 5:30'') = None
   \<and> entry_of (analyze_processes_openai decimal_float
        (OpenAIMessage (Some ''Process Name: a.exe\<newline>Threat Score: 5:30''))) ''a.exe''
     = Some \<lparr>description = Some '''', threat_score = Some (Num (Finite 5))\<rparr>
   \<and> entry_of (analyze_processes_anthropic decimal_float
        (AnthropicMessage [TextBlock ''Process Name: a.exe\<newline>Threat Score: 5:30''])) ''a.exe''
     = Some \<lparr>description = Some '''', threat_score = Some (Num (Finite 5))\<rparr>"
  by code_simp

section \<open>C7: one section per process\<close>




section \<open>C8: the sort value of a score of zero\<close>

text \<open>
  C8. The claim: a process with no score sorts below every process with a numeric score
  when the report is sorted by descending score. The rendering gives it the value -1,
  below every score from 0 to 10; but the script takes \<open>parseFloat(aVal) || -1\<close>, which is
  -1 for a score of 0 as well. The two compare as equal, the stable sort keeps their
  order, and a process with no score that comes first in the snapshot is displayed above
  a process of score 0.
\<close>

theorem zero_score_not_above_missing_score:
  "displayed_scores
     (main_run decimal_float sample_loads [process_b, process_a]
        (UseOpenAI (OpenAIMessage (Some ''Process Name: a.exe\<newline>Description: d\<newline>Threat Score: 0''))))
     = Some [(''b.exe'', NotAvailable), (''a.exe'', OneDecimal (Finite 0))]
   \<and> sort_value (Finite 0) = sort_value (Finite (- 1))"
  by code_simp

section \<open>C9: a JSON entry whose score is null\<close>

text \<open>
  C9. The claim: no malformed value in a backend payload can abort the run. The Ollama
  function returns a decoded JSON object as it is; for a process whose entry has
  \<open>"threat_score": null\<close>, \<open>float(None)\<close> raises \<open>TypeError\<close>, which the \<open>except ValueError\<close> of
  line 386 does not catch, and the run ends in the handler of \<open>main\<close> with no report. For a
  process the object does not name, the report is rendered. A failed Anthropic request
  ends the run in the same handler (see C3).
\<close>

theorem null_score_aborts_run:
  "main_run decimal_float sample_loads [process_a] (UseOllama (OllamaResponse null_score_json))
     = CriticalError TypeError
   \<and> displayed_scores
        (main_run decimal_float sample_loads [process_b] (UseOllama (OllamaResponse null_score_json)))
     = Some [(''b.exe'', NotAvailable)]
   \<and> main_run decimal_float sample_loads [process_a] (UseAnthropic AnthropicRaises)
     = CriticalError UnboundLocalError"
  by code_simp

section \<open>C10: the two free-text parsers are the same function\<close>

text \<open>
  C10. The parsing loop of \<open>analyze_processes_anthropic\<close> and that of
  \<open>analyze_processes_openai\<close> give the same result on every response content: the same
  mapping, or the same exception; and so the two functions return the same mapping for
  the same text.
\<close>

theorem anthropic_openai_parsers_equal:
  "anthropic_parse pf content = openai_parse pf content
   \<and> analyze_processes_anthropic pf (AnthropicMessage [TextBlock content])
     = analyze_processes_openai pf (OpenAIMessage (Some content))"
  by (simp add: openai_parse_eq analyze_anthropic_text analyze_openai_text)

theorem anthropic_openai_parsers_equal_witness:
  "entry_of (anthropic_parse decimal_float sample_payload) ''svchost.exe''
     = Some \<lparr>description = Some ''Hosts Windows services. Often many instances.'',
             threat_score = Some (Num (Finite 1))\<rparr>
   \<and> entry_of (openai_parse decimal_float sample_payload) ''svchost.exe''
     = Some \<lparr>description = Some ''Hosts Windows services. Often many instances.'',
             threat_score = Some (Num (Finite 1))\<rparr>"
proof -
  have "entry_of (anthropic_parse decimal_float sample_payload) ''svchost.exe''
     = Some \<lparr>description = Some ''Hosts Windows services. Often many instances.'',
             threat_score = Some (Num (Finite 1))\<rparr>"
    by code_simp
  then show ?thesis
    using anthropic_openai_parsers_equal[of decimal_float sample_payload] by simp
qed

end
